theory Spec2Isabelle
  imports Complex_Main "HOL-Library.Word" "HOL-Library.Monad_Syntax"
begin

section \<open>Strings, numbers and JSON values\<close>

text \<open>
  A JavaScript string is a sequence of 16-bit code units and \<open>length\<close> counts them.
  A string literal of the source that is pure ASCII is written \<open>lit ''...''\<close>.

  A JavaScript number is a double. The numbers of this development are rationals:
  every finite double is a rational and the comparisons of the source agree with the
  comparisons of the rationals. The two infinities that \<open>JSON.parse\<close> gives for
  literals out of the range of a double are not represented; both fail the bounds of
  every score. Arithmetic on rationals is exact where double arithmetic rounds; on the
  integers below \<open>2^53\<close> in magnitude the two agree. A decimal literal of the source
  (\<open>0.1\<close>, \<open>0.3\<close>) is written as the rational it spells; no arithmetic is done on one.
\<close>

type_synonym jsstring = "16 word list"

definition lit :: "string \<Rightarrow> jsstring" where
  "lit s = map (\<lambda>c. of_char c) s"

datatype json =
    JNull
  | JBool bool
  | JNumber rat
  | JString jsstring
  | JArray "json list"
  | JObject "(jsstring \<times> json) list"

section \<open>The schemas\<close>

text \<open>
  The validators of the schema library, as far as \<open>scoringSchema\<close> and
  \<open>autoTagSchema\<close> use them. Each takes the member read from the parsed object
  (\<open>None\<close> for \<open>undefined\<close>) and returns the validated value, or \<open>None\<close> where
  the library throws its validation error.
\<close>

fun zNumberMinMax :: "rat \<Rightarrow> rat \<Rightarrow> json option \<Rightarrow> rat option" where
  "zNumberMinMax lo hi (Some (JNumber x)) = (if x < lo then None else if hi < x then None else Some x)"
| "zNumberMinMax lo hi _ = None"

fun zString :: "json option \<Rightarrow> jsstring option" where
  "zString (Some (JString s)) = Some s"
| "zString _ = None"

fun zStrings :: "json list \<Rightarrow> jsstring list option" where
  "zStrings [] = Some []"
| "zStrings (j # js) =
     (case zString (Some j) of
        None \<Rightarrow> None
      | Some s \<Rightarrow> (case zStrings js of None \<Rightarrow> None | Some ss \<Rightarrow> Some (s # ss)))"

fun zStringArrayMax :: "nat \<Rightarrow> json option \<Rightarrow> jsstring list option" where
  "zStringArrayMax n (Some (JArray js)) = (if n < length js then None else zStrings js)"
| "zStringArrayMax n _ = None"

fun zEnum :: "jsstring list \<Rightarrow> json option \<Rightarrow> jsstring option" where
  "zEnum vs (Some (JString s)) = (if s \<in> set vs then Some s else None)"
| "zEnum vs _ = None"

text \<open>\<open>z.number().optional()\<close>: an absent member is accepted and stays absent.\<close>

fun zNumberOptional :: "json option \<Rightarrow> rat option option" where
  "zNumberOptional None = Some None"
| "zNumberOptional (Some (JNumber x)) = Some (Some x)"
| "zNumberOptional _ = None"

record Reasoning =
  reasoning_clarity :: jsstring
  reasoning_structure :: jsstring
  reasoning_usefulness :: jsstring
  reasoning_overall :: jsstring

record PromptScore =
  clarity :: rat
  "structure" :: rat
  usefulness :: rat
  overall :: rat
  reasoning :: Reasoning
  suggestedTags :: "jsstring list"
  category :: jsstring
  complexity :: jsstring
  estimatedTokens :: "rat option"

definition categoryValues :: "jsstring list" where
  "categoryValues = [lit ''creative'', lit ''technical'', lit ''business'', lit ''educational'', lit ''other'']"

definition complexityValues :: "jsstring list" where
  "complexityValues = [lit ''beginner'', lit ''intermediate'', lit ''advanced'']"

fun reasoningSchema_parse :: "json option \<Rightarrow> Reasoning option" where
  "reasoningSchema_parse (Some (JObject kvs)) = do {
     c \<leftarrow> zString (map_of kvs (lit ''clarity''));
     s \<leftarrow> zString (map_of kvs (lit ''structure''));
     u \<leftarrow> zString (map_of kvs (lit ''usefulness''));
     ov \<leftarrow> zString (map_of kvs (lit ''overall''));
     Some \<lparr>reasoning_clarity = c, reasoning_structure = s,
           reasoning_usefulness = u, reasoning_overall = ov\<rparr>
   }"
| "reasoningSchema_parse _ = None"

fun scoringSchema_parse :: "json \<Rightarrow> PromptScore option" where
  "scoringSchema_parse (JObject kvs) = do {
     c \<leftarrow> zNumberMinMax 1 10 (map_of kvs (lit ''clarity''));
     s \<leftarrow> zNumberMinMax 1 10 (map_of kvs (lit ''structure''));
     u \<leftarrow> zNumberMinMax 1 10 (map_of kvs (lit ''usefulness''));
     ov \<leftarrow> zNumberMinMax 1 10 (map_of kvs (lit ''overall''));
     r \<leftarrow> reasoningSchema_parse (map_of kvs (lit ''reasoning''));
     ts \<leftarrow> zStringArrayMax 10 (map_of kvs (lit ''suggestedTags''));
     cat \<leftarrow> zEnum categoryValues (map_of kvs (lit ''category''));
     cx \<leftarrow> zEnum complexityValues (map_of kvs (lit ''complexity''));
     et \<leftarrow> zNumberOptional (map_of kvs (lit ''estimatedTokens''));
     Some \<lparr>clarity = c, structure = s, usefulness = u, overall = ov, reasoning = r,
           suggestedTags = ts, category = cat, complexity = cx, estimatedTokens = et\<rparr>
   }"
| "scoringSchema_parse _ = None"

record AutoTagResult =
  tags :: "jsstring list"
  confidence :: rat
  autoTag_reasoning :: jsstring

fun autoTagSchema_parse :: "json \<Rightarrow> AutoTagResult option" where
  "autoTagSchema_parse (JObject kvs) = do {
     ts \<leftarrow> zStringArrayMax 10 (map_of kvs (lit ''tags''));
     cf \<leftarrow> zNumberMinMax 0 1 (map_of kvs (lit ''confidence''));
     r \<leftarrow> zString (map_of kvs (lit ''reasoning''));
     Some \<lparr>tags = ts, confidence = cf, autoTag_reasoning = r\<rparr>
   }"
| "autoTagSchema_parse _ = None"

section \<open>The completion service\<close>

text \<open>
  The request of one call. The instruction text around the three interpolated values is
  fixed and is not spelled out; what varies from call to call is recorded.
\<close>

record chat_request =
  model :: jsstring
  system_content :: jsstring
  user_title :: jsstring
  user_description :: jsstring
  user_content :: jsstring
  temperature :: rat
  max_tokens :: nat

record chat_message =
  message_content :: "jsstring option"

record chat_choice =
  message :: "chat_message option"

record chat_completion =
  choices :: "chat_choice list"

text \<open>One call either rejects (transport failure, error status, timeout) or resolves
  with a completion.\<close>

datatype api_outcome = Rejected | Resolved chat_completion

text \<open>\<open>completion.choices[0]?.message?.content\<close>\<close>

definition responseContent :: "chat_completion \<Rightarrow> jsstring option" where
  "responseContent completion =
     (case choices completion of
        [] \<Rightarrow> None
      | ch # _ \<Rightarrow> (case message ch of None \<Rightarrow> None | Some m \<Rightarrow> message_content m))"

text \<open>\<open>x || d\<close> on an optional string: the default replaces \<open>undefined\<close> and the empty string.\<close>

fun orDefault :: "jsstring option \<Rightarrow> jsstring \<Rightarrow> jsstring" where
  "orDefault None d = d"
| "orDefault (Some s) d = (if s = [] then d else s)"

section \<open>evaluatePrompt\<close>

datatype failure = TransportError | NoResponseContent | NotJSON | SchemaViolation

definition evaluationRequest :: "jsstring \<Rightarrow> jsstring option \<Rightarrow> jsstring option \<Rightarrow> chat_request" where
  "evaluationRequest promptContent title description =
     \<lparr>model = lit ''gpt-4'',
      system_content = lit ''You are an expert AI prompt evaluator. Always respond with valid JSON matching the requested schema.'',
      user_title = orDefault title (lit ''No title provided''),
      user_description = orDefault description (lit ''No description provided''),
      user_content = promptContent,
      temperature = 3 / 10,
      max_tokens = 1000\<rparr>"

text \<open>
  The body of the \<open>try\<close> block. \<open>api\<close> is the behaviour of the one external call this
  invocation issues, \<open>JSON_parse\<close> the parser of the platform (\<open>None\<close> where it throws
  its syntax error).
\<close>

definition evaluatePrompt_try ::
  "(chat_request \<Rightarrow> api_outcome) \<Rightarrow> (jsstring \<Rightarrow> json option) \<Rightarrow>
   jsstring \<Rightarrow> jsstring option \<Rightarrow> jsstring option \<Rightarrow> failure + PromptScore" where
  "evaluatePrompt_try api JSON_parse promptContent title description =
     (case api (evaluationRequest promptContent title description) of
        Rejected \<Rightarrow> Inl TransportError
      | Resolved completion \<Rightarrow>
          (case responseContent completion of
             None \<Rightarrow> Inl NoResponseContent
           | Some responseText \<Rightarrow>
               if responseText = [] then Inl NoResponseContent
               else (case JSON_parse responseText of
                       None \<Rightarrow> Inl NotJSON
                     | Some parsedResponse \<Rightarrow>
                         (case scoringSchema_parse parsedResponse of
                            None \<Rightarrow> Inl SchemaViolation
                          | Some validatedScore \<Rightarrow> Inr validatedScore))))"

text \<open>The object of the \<open>catch\<close> block.\<close>

definition defaultScore :: "jsstring \<Rightarrow> PromptScore" where
  "defaultScore promptContent =
     \<lparr>clarity = 5, structure = 5, usefulness = 5, overall = 5,
      reasoning =
        \<lparr>reasoning_clarity = lit ''Evaluation failed - default score assigned'',
         reasoning_structure = lit ''Evaluation failed - default score assigned'',
         reasoning_usefulness = lit ''Evaluation failed - default score assigned'',
         reasoning_overall = lit ''Evaluation failed - default score assigned''\<rparr>,
      suggestedTags = [lit ''untagged''],
      category = lit ''other'',
      complexity = lit ''intermediate'',
      estimatedTokens = Some (of_int \<lceil>of_nat (length promptContent) / (4 :: rat)\<rceil>)\<rparr>"

definition evaluatePrompt ::
  "(chat_request \<Rightarrow> api_outcome) \<Rightarrow> (jsstring \<Rightarrow> json option) \<Rightarrow>
   jsstring \<Rightarrow> jsstring option \<Rightarrow> jsstring option \<Rightarrow> PromptScore" where
  "evaluatePrompt api JSON_parse promptContent title description =
     (case evaluatePrompt_try api JSON_parse promptContent title description of
        Inl error \<Rightarrow> defaultScore promptContent
      | Inr validatedScore \<Rightarrow> validatedScore)"

section \<open>generateAutoTags\<close>

definition taggingRequest :: "jsstring \<Rightarrow> jsstring option \<Rightarrow> jsstring option \<Rightarrow> chat_request" where
  "taggingRequest promptContent title description =
     \<lparr>model = lit ''gpt-4'',
      system_content = lit ''You are an expert at categorizing and tagging AI prompts. Always respond with valid JSON.'',
      user_title = orDefault title (lit ''No title provided''),
      user_description = orDefault description (lit ''No description provided''),
      user_content = promptContent,
      temperature = 2 / 10,
      max_tokens = 500\<rparr>"

definition generateAutoTags_try ::
  "(chat_request \<Rightarrow> api_outcome) \<Rightarrow> (jsstring \<Rightarrow> json option) \<Rightarrow>
   jsstring \<Rightarrow> jsstring option \<Rightarrow> jsstring option \<Rightarrow> failure + AutoTagResult" where
  "generateAutoTags_try api JSON_parse promptContent title description =
     (case api (taggingRequest promptContent title description) of
        Rejected \<Rightarrow> Inl TransportError
      | Resolved completion \<Rightarrow>
          (case responseContent completion of
             None \<Rightarrow> Inl NoResponseContent
           | Some responseText \<Rightarrow>
               if responseText = [] then Inl NoResponseContent
               else (case JSON_parse responseText of
                       None \<Rightarrow> Inl NotJSON
                     | Some parsedResponse \<Rightarrow>
                         (case autoTagSchema_parse parsedResponse of
                            None \<Rightarrow> Inl SchemaViolation
                          | Some validatedResult \<Rightarrow> Inr validatedResult))))"

definition defaultTags :: AutoTagResult where
  "defaultTags =
     \<lparr>tags = [lit ''prompt'', lit ''untagged''],
      confidence = 1 / 10,
      autoTag_reasoning = lit ''Auto-tagging failed - default tags assigned''\<rparr>"

definition generateAutoTags ::
  "(chat_request \<Rightarrow> api_outcome) \<Rightarrow> (jsstring \<Rightarrow> json option) \<Rightarrow>
   jsstring \<Rightarrow> jsstring option \<Rightarrow> jsstring option \<Rightarrow> AutoTagResult" where
  "generateAutoTags api JSON_parse promptContent title description =
     (case generateAutoTags_try api JSON_parse promptContent title description of
        Inl error \<Rightarrow> defaultTags
      | Inr validatedResult \<Rightarrow> validatedResult)"

section \<open>batchEvaluatePrompts\<close>

record BatchItem =
  content :: jsstring
  title :: "jsstring option"
  description :: "jsstring option"
  item_id :: jsstring

record BatchResult =
  result_id :: jsstring
  score :: PromptScore
  error :: "jsstring option"

text \<open>What a rejected evaluation carries: an \<open>Error\<close> with its message, or any other value.\<close>

datatype thrown = ErrorObject jsstring | OtherValue

text \<open>
  The effects of a batch, in the order they happen: a request handed to the completion
  service, the point where \<open>await Promise.all\<close> has seen the whole window settle, and a
  timer of so many milliseconds that the loop waits for.
\<close>

datatype event = ApiCall chat_request | AwaitAll | Sleep nat

text \<open>
  The evaluation of the item at position \<open>k\<close> of the input: what it resolves or rejects
  with, and the requests it hands to the service before its first suspension.
\<close>

type_synonym evaluator = "nat \<Rightarrow> BatchItem \<Rightarrow> (thrown + PromptScore) \<times> event list"

definition batchSize :: nat where
  "batchSize = 5"

text \<open>The object of the inner \<open>catch\<close> block, without its \<open>id\<close> and \<open>error\<close>.\<close>

definition failedScore :: PromptScore where
  "failedScore =
     \<lparr>clarity = 1, structure = 1, usefulness = 1, overall = 1,
      reasoning =
        \<lparr>reasoning_clarity = lit ''Evaluation failed'',
         reasoning_structure = lit ''Evaluation failed'',
         reasoning_usefulness = lit ''Evaluation failed'',
         reasoning_overall = lit ''Evaluation failed''\<rparr>,
      suggestedTags = [lit ''error''],
      category = lit ''other'',
      complexity = lit ''intermediate'',
      estimatedTokens = None\<rparr>"

fun errorMessage :: "thrown \<Rightarrow> jsstring" where
  "errorMessage (ErrorObject msg) = msg"
| "errorMessage OtherValue = lit ''Unknown error''"

text \<open>The asynchronous function mapped over a window, applied to one item.\<close>

definition evaluateItem :: "evaluator \<Rightarrow> nat \<Rightarrow> BatchItem \<Rightarrow> BatchResult \<times> event list" where
  "evaluateItem evaluate k prompt =
     (case evaluate k prompt of
        (Inr s, issued) \<Rightarrow> (\<lparr>result_id = item_id prompt, score = s, error = None\<rparr>, issued)
      | (Inl e, issued) \<Rightarrow>
          (\<lparr>result_id = item_id prompt, score = failedScore, error = Some (errorMessage e)\<rparr>,
           issued))"

text \<open>
  \<open>batch.map(async ...)\<close> followed by \<open>Promise.all\<close>: every function of the window
  runs up to its first suspension while \<open>map\<close> builds the array of promises, so the
  requests of the window are issued in the order of the items; the results come back in
  that order, whatever the order of completion.
\<close>

fun evaluateWindow :: "evaluator \<Rightarrow> nat \<Rightarrow> BatchItem list \<Rightarrow> BatchResult list \<times> event list" where
  "evaluateWindow evaluate k [] = ([], [])"
| "evaluateWindow evaluate k (prompt # batch) =
     (case evaluateItem evaluate k prompt of
        (r, issued) \<Rightarrow>
          (case evaluateWindow evaluate (Suc k) batch of
             (rs, issued') \<Rightarrow> (r # rs, issued @ issued')))"

text \<open>\<open>xs.slice(i, j)\<close> for \<open>0 \<le> i \<le> j\<close>.\<close>

definition array_slice :: "'a list \<Rightarrow> nat \<Rightarrow> nat \<Rightarrow> 'a list" where
  "array_slice xs i j = take (j - i) (drop i xs)"

function batchLoop ::
  "evaluator \<Rightarrow> BatchItem list \<Rightarrow> nat \<Rightarrow> BatchResult list \<Rightarrow> event list \<Rightarrow>
   BatchResult list \<times> event list" where
  "batchLoop evaluate prompts i results trace =
     (if i < length prompts then
        (case evaluateWindow evaluate i (array_slice prompts i (i + batchSize)) of
           (batchResults, issued) \<Rightarrow>
             batchLoop evaluate prompts (i + batchSize) (results @ batchResults)
               (trace @ issued @ [AwaitAll] @
                 (if i + batchSize < length prompts then [Sleep 1000] else [])))
      else (results, trace))"
  by pat_completeness auto
termination
  by (relation "measure (\<lambda>(evaluate, prompts, i, results, trace). length prompts - i)")
     (auto simp: batchSize_def)

declare batchLoop.simps [simp del]

text \<open>The batch over any evaluation of an item, one that may reject included.\<close>

definition batchEvaluateWith :: "evaluator \<Rightarrow> BatchItem list \<Rightarrow> BatchResult list \<times> event list" where
  "batchEvaluateWith evaluate prompts = batchLoop evaluate prompts 0 [] []"

text \<open>
  The batch as the source has it, over \<open>evaluatePrompt\<close>: \<open>api k\<close> is the behaviour of
  the call that the item at position \<open>k\<close> issues.
\<close>

definition evaluatePromptOf ::
  "(nat \<Rightarrow> chat_request \<Rightarrow> api_outcome) \<Rightarrow> (jsstring \<Rightarrow> json option) \<Rightarrow> evaluator" where
  "evaluatePromptOf api JSON_parse k prompt =
     (Inr (evaluatePrompt (api k) JSON_parse (content prompt) (title prompt) (description prompt)),
      [ApiCall (evaluationRequest (content prompt) (title prompt) (description prompt))])"

definition batchEvaluatePrompts ::
  "(nat \<Rightarrow> chat_request \<Rightarrow> api_outcome) \<Rightarrow> (jsstring \<Rightarrow> json option) \<Rightarrow>
   BatchItem list \<Rightarrow> BatchResult list \<times> event list" where
  "batchEvaluatePrompts api JSON_parse prompts =
     batchEvaluateWith (evaluatePromptOf api JSON_parse) prompts"

section \<open>calculateScoringStats\<close>

subsection \<open>Plain objects used as counters\<close>

text \<open>
  \<open>Record<string, number> = {}\<close> is an ordinary object: its own properties in the order
  of their creation, and behind them the properties it inherits from
  \<open>Object.prototype\<close>. A property holds a number, or something that is not a number.
\<close>

datatype cell = Count nat | NotANumber

type_synonym jsobject = "(jsstring \<times> cell) list"

definition objectPrototypeKeys :: "jsstring list" where
  "objectPrototypeKeys =
     [lit ''constructor'', lit ''__defineGetter__'', lit ''__defineSetter__'',
      lit ''hasOwnProperty'', lit ''__lookupGetter__'', lit ''__lookupSetter__'',
      lit ''isPrototypeOf'', lit ''propertyIsEnumerable'', lit ''toString'',
      lit ''valueOf'', lit ''__proto__'', lit ''toLocaleString'']"

text \<open>\<open>obj[key]\<close>: the own property, else the inherited one (a function or an object,
  never a number), else \<open>undefined\<close>.\<close>

definition getProperty :: "jsobject \<Rightarrow> jsstring \<Rightarrow> cell option" where
  "getProperty obj key =
     (case map_of obj key of
        Some v \<Rightarrow> Some v
      | None \<Rightarrow> if key \<in> set objectPrototypeKeys then Some NotANumber else None)"

text \<open>\<open>(v || 0) + 1\<close>: \<open>undefined\<close> and \<open>0\<close> count as 0; on anything that is not a
  number \<open>+\<close> concatenates, and the result is a string.\<close>

fun orZeroPlusOne :: "cell option \<Rightarrow> cell" where
  "orZeroPlusOne None = Count 1"
| "orZeroPlusOne (Some (Count n)) = Count (n + 1)"
| "orZeroPlusOne (Some NotANumber) = NotANumber"

fun updateProperty :: "jsobject \<Rightarrow> jsstring \<Rightarrow> cell \<Rightarrow> jsobject" where
  "updateProperty [] key v = [(key, v)]"
| "updateProperty ((k, w) # obj) key v =
     (if k = key then (k, v) # obj else (k, w) # updateProperty obj key v)"

text \<open>\<open>obj[key] = v\<close> for a number or string \<open>v\<close>: the own property is overwritten in
  place or created last; the inherited setter of \<open>__proto__\<close> ignores such a value.\<close>

definition setProperty :: "jsobject \<Rightarrow> jsstring \<Rightarrow> cell \<Rightarrow> jsobject" where
  "setProperty obj key v = (if key = lit ''__proto__'' then obj else updateProperty obj key v)"

text \<open>\<open>obj[key] = (obj[key] || 0) + 1\<close>\<close>

definition increment :: "jsstring \<Rightarrow> jsobject \<Rightarrow> jsobject" where
  "increment key obj = setProperty obj key (orZeroPlusOne (getProperty obj key))"

text \<open>
  The order in which \<open>Object.entries\<close> lists own properties: the keys that are array
  indices (canonical decimal numerals below \<open>2^32 - 1\<close>) in ascending numeric order,
  then the other keys in the order of their creation.
\<close>

definition isDigit :: "16 word \<Rightarrow> bool" where
  "isDigit c = (0x30 \<le> c \<and> c \<le> 0x39)"

definition decimalValue :: "jsstring \<Rightarrow> nat" where
  "decimalValue s = foldl (\<lambda>n c. 10 * n + (unat c - 48)) 0 s"

fun isArrayIndex :: "jsstring \<Rightarrow> bool" where
  "isArrayIndex [] = False"
| "isArrayIndex [c] = isDigit c"
| "isArrayIndex (c # cs) =
     (isDigit c \<and> c \<noteq> 0x30 \<and> list_all isDigit cs \<and> decimalValue (c # cs) < 4294967295)"

definition Object_entries :: "jsobject \<Rightarrow> (jsstring \<times> cell) list" where
  "Object_entries obj =
     sort_key (\<lambda>e. decimalValue (fst e)) (filter (\<lambda>e. isArrayIndex (fst e)) obj)
     @ filter (\<lambda>e. \<not> isArrayIndex (fst e)) obj"

subsection \<open>Bucket labels\<close>

text \<open>The decimal numeral of an integer, as a template literal prints it (for
  magnitudes below \<open>10^21\<close>, where no exponent is written).\<close>

function natToString :: "nat \<Rightarrow> jsstring" where
  "natToString n =
     (if n < 10 then [of_nat (48 + n)]
      else natToString (n div 10) @ [of_nat (48 + n mod 10)])"
  by pat_completeness auto
termination
  by (relation "measure (\<lambda>n. n)") auto

declare natToString.simps [simp del]

definition intToString :: "int \<Rightarrow> jsstring" where
  "intToString i = (if i < 0 then lit ''-'' @ natToString (nat (- i)) else natToString (nat i))"

definition bucketLabel :: "rat \<Rightarrow> jsstring" where
  "bucketLabel v =
     intToString (\<lfloor>(v - 1) / 2\<rfloor> * 2 + 1) @ lit ''-'' @ intToString (\<lfloor>(v - 1) / 2\<rfloor> * 2 + 2)"

subsection \<open>The statistics\<close>

record Averages =
  average_clarity :: rat
  average_structure :: rat
  average_usefulness :: rat
  average_overall :: rat

record Distributions =
  clarity_distribution :: jsobject
  structure_distribution :: jsobject
  usefulness_distribution :: jsobject
  overall_distribution :: jsobject

record ScoringStats =
  averages :: Averages
  distributions :: Distributions
  topTags :: "(jsstring \<times> cell) list option"
  categoryDistribution :: jsobject

text \<open>\<open>scores.reduce((sum, s) => sum + f(s), 0) / scores.length\<close>\<close>

definition average :: "(PromptScore \<Rightarrow> rat) \<Rightarrow> PromptScore list \<Rightarrow> rat" where
  "average f scores = foldl (\<lambda>sum s. sum + f s) 0 scores / of_nat (length scores)"

definition addToDistributions :: "PromptScore \<Rightarrow> Distributions \<Rightarrow> Distributions" where
  "addToDistributions s d =
     \<lparr>clarity_distribution = increment (bucketLabel (clarity s)) (clarity_distribution d),
      structure_distribution = increment (bucketLabel (structure s)) (structure_distribution d),
      usefulness_distribution = increment (bucketLabel (usefulness s)) (usefulness_distribution d),
      overall_distribution = increment (bucketLabel (overall s)) (overall_distribution d)\<rparr>"

definition emptyDistributions :: Distributions where
  "emptyDistributions =
     \<lparr>clarity_distribution = [], structure_distribution = [],
      usefulness_distribution = [], overall_distribution = []\<rparr>"

definition countTags :: "PromptScore list \<Rightarrow> jsobject" where
  "countTags scores = fold increment (concat (map suggestedTags scores)) []"

definition isCount :: "jsstring \<times> cell \<Rightarrow> bool" where
  "isCount e = (case snd e of Count n \<Rightarrow> True | NotANumber \<Rightarrow> False)"

definition countOf :: "jsstring \<times> cell \<Rightarrow> nat" where
  "countOf e = (case snd e of Count n \<Rightarrow> n | NotANumber \<Rightarrow> 0)"

text \<open>
  \<open>.sort((a, b) => b.count - a.count)\<close>: a stable sort, descending by count. Where a
  count is not a number the comparator yields \<open>NaN\<close>, which the sort takes for 0: such
  an entry compares equal to every other. If the counts that are numbers are then all
  the same, every pair compares equal and the stable sort leaves the order as it is.
  Otherwise the comparator is not a consistent ordering and the language leaves the
  resulting order to the implementation: that case is \<open>None\<close>.
\<close>

definition sortByCountDescending :: "(jsstring \<times> cell) list \<Rightarrow> (jsstring \<times> cell) list option" where
  "sortByCountDescending entries =
     (if list_all isCount entries then Some (sort_key (\<lambda>e. - int (countOf e)) entries)
      else if length (remdups (map countOf (filter isCount entries))) \<le> 1 then Some entries
      else None)"

definition calculateTopTags :: "PromptScore list \<Rightarrow> (jsstring \<times> cell) list option" where
  "calculateTopTags scores =
     map_option (take 20) (sortByCountDescending (Object_entries (countTags scores)))"

definition calculateScoringStats :: "PromptScore list \<Rightarrow> ScoringStats" where
  "calculateScoringStats scores =
     (if length scores = 0 then
        \<lparr>averages = \<lparr>average_clarity = 0, average_structure = 0,
                     average_usefulness = 0, average_overall = 0\<rparr>,
         distributions = emptyDistributions,
         topTags = Some [],
         categoryDistribution = []\<rparr>
      else
        \<lparr>averages = \<lparr>average_clarity = average clarity scores,
                     average_structure = average structure scores,
                     average_usefulness = average usefulness scores,
                     average_overall = average overall scores\<rparr>,
         distributions = fold addToDistributions scores emptyDistributions,
         topTags = calculateTopTags scores,
         categoryDistribution = fold increment (map category scores) []\<rparr>)"

section \<open>Windows of a batch\<close>

text \<open>
  The partition of a sequence into contiguous windows of \<open>n\<close> items, the last one
  possibly shorter, and the effects expected of a batch processed window by window:
  the calls of a window, the wait for the whole window, and a pause of one second
  after every window but the last.
\<close>

function windowsOf :: "nat \<Rightarrow> 'a list \<Rightarrow> 'a list list" where
  "windowsOf n xs = (if xs = [] \<or> n = 0 then [] else take n xs # windowsOf n (drop n xs))"
  by pat_completeness auto
termination
  by (relation "measure (\<lambda>(n, xs). length xs)") auto

declare windowsOf.simps [simp del]

definition callOf :: "BatchItem \<Rightarrow> event" where
  "callOf prompt = ApiCall (evaluationRequest (content prompt) (title prompt) (description prompt))"

fun windowTrace :: "BatchItem list list \<Rightarrow> event list" where
  "windowTrace [] = []"
| "windowTrace [w] = map callOf w @ [AwaitAll]"
| "windowTrace (w # ws) = map callOf w @ [AwaitAll, Sleep 1000] @ windowTrace ws"

fun isSleep :: "event \<Rightarrow> bool" where
  "isSleep (Sleep ms) = True"
| "isSleep _ = False"

section \<open>Statistics as the specification words them\<close>

text \<open>The distinct elements of a list in the order of their first occurrence.\<close>

fun firstSeen :: "'a list \<Rightarrow> 'a list" where
  "firstSeen [] = []"
| "firstSeen (x # xs) = x # filter (\<lambda>y. y \<noteq> x) (firstSeen xs)"

text \<open>
  The top tags in the words of the specification: flatten the tags of every item,
  count the occurrences of each tag, sort descending by count with ties left in the
  order of first occurrence, keep 20.
\<close>

definition topTagsBySpec :: "PromptScore list \<Rightarrow> (jsstring \<times> cell) list" where
  "topTagsBySpec scores =
     take 20 (sort_key (\<lambda>e. - int (countOf e))
       (map (\<lambda>tag. (tag, Count (count_list (concat (map suggestedTags scores)) tag)))
         (firstSeen (concat (map suggestedTags scores)))))"

text \<open>The order in which an object lists keys created in the given order.\<close>

definition enumerationOrder :: "jsstring list \<Rightarrow> jsstring list" where
  "enumerationOrder keys =
     sort_key decimalValue (filter isArrayIndex keys) @ filter (\<lambda>k. \<not> isArrayIndex k) keys"

text \<open>The five buckets; bucket \<open>k\<close> holds the values from \<open>2k + 1\<close> to \<open>2k + 2\<close>.\<close>

definition fiveBuckets :: "jsstring list" where
  "fiveBuckets = [lit ''1-2'', lit ''3-4'', lit ''5-6'', lit ''7-8'', lit ''9-10'']"

definition inBucket :: "nat \<Rightarrow> rat \<Rightarrow> bool" where
  "inBucket k v = (of_nat (2 * k + 1) \<le> v \<and> v \<le> of_nat (2 * k + 2))"

definition bucketCount :: "nat \<Rightarrow> rat list \<Rightarrow> nat" where
  "bucketCount k vs = length (filter (inBucket k) vs)"

text \<open>An integer from 1 to 10.\<close>

definition isScoreValue :: "rat \<Rightarrow> bool" where
  "isScoreValue v = (v = of_int \<lfloor>v\<rfloor> \<and> 1 \<le> v \<and> v \<le> 10)"

definition hasScoreValues :: "PromptScore \<Rightarrow> bool" where
  "hasScoreValues s =
     (isScoreValue (clarity s) \<and> isScoreValue (structure s)
      \<and> isScoreValue (usefulness s) \<and> isScoreValue (overall s))"

text \<open>
  An object is the histogram of a list of values: its keys are distinct labels of the
  five buckets, and under the label of bucket \<open>k\<close> it holds the number of values in
  that bucket, or nothing when there is none.
\<close>

definition holdsBucket :: "jsobject \<Rightarrow> rat list \<Rightarrow> nat \<Rightarrow> bool" where
  "holdsBucket h vs k =
     (map_of h (fiveBuckets ! k)
        = (if bucketCount k vs = 0 then None else Some (Count (bucketCount k vs))))"

definition isHistogramOf :: "jsobject \<Rightarrow> rat list \<Rightarrow> bool" where
  "isHistogramOf h vs =
     (distinct (map fst h) \<and> list_all (\<lambda>key. key \<in> set fiveBuckets) (map fst h)
      \<and> list_all (holdsBucket h vs) [0..<5])"

section \<open>Sample values\<close>

text \<open>A response of the service that satisfies the scoring schema, with a clarity of
  7.5, and the value the platform parser gives for its text.\<close>

definition sampleResponseText :: jsstring where
  \<open>sampleResponseText = lit ''{"clarity":7.5,"structure":8,"usefulness":9,"overall":8,"reasoning":{"clarity":"a","structure":"b","usefulness":"c","overall":"d"},"suggestedTags":["ai","2024"],"category":"technical","complexity":"advanced"}''\<close>

definition sampleResponseJson :: json where
  "sampleResponseJson =
     JObject
       [(lit ''clarity'', JNumber (15 / 2)),
        (lit ''structure'', JNumber 8),
        (lit ''usefulness'', JNumber 9),
        (lit ''overall'', JNumber 8),
        (lit ''reasoning'',
           JObject
             [(lit ''clarity'', JString (lit ''a'')),
              (lit ''structure'', JString (lit ''b'')),
              (lit ''usefulness'', JString (lit ''c'')),
              (lit ''overall'', JString (lit ''d''))]),
        (lit ''suggestedTags'', JArray [JString (lit ''ai''), JString (lit ''2024'')]),
        (lit ''category'', JString (lit ''technical'')),
        (lit ''complexity'', JString (lit ''advanced''))]"

definition sampleScore :: PromptScore where
  "sampleScore =
     \<lparr>clarity = 15 / 2, structure = 8, usefulness = 9, overall = 8,
      reasoning =
        \<lparr>reasoning_clarity = lit ''a'', reasoning_structure = lit ''b'',
         reasoning_usefulness = lit ''c'', reasoning_overall = lit ''d''\<rparr>,
      suggestedTags = [lit ''ai'', lit ''2024''],
      category = lit ''technical'',
      complexity = lit ''advanced'',
      estimatedTokens = None\<rparr>"

definition sampleCompletion :: chat_completion where
  "sampleCompletion =
     \<lparr>choices = [\<lparr>message = Some \<lparr>message_content = Some sampleResponseText\<rparr>\<rparr>]\<rparr>"

definition sampleParse :: "jsstring \<Rightarrow> json option" where
  "sampleParse text = (if text = sampleResponseText then Some sampleResponseJson else None)"

text \<open>Items for a batch, and an evaluation that rejects for the item at position 1.\<close>

definition sampleItem :: "nat \<Rightarrow> BatchItem" where
  "sampleItem n =
     \<lparr>content = lit ''Write a haiku'', title = None, description = None,
      item_id = lit ''item-'' @ natToString n\<rparr>"

definition rejectingSecond :: evaluator where
  "rejectingSecond k prompt =
     (if k = 1 then (Inl (ErrorObject (lit ''Request timed out'')), [])
      else (Inr sampleScore, []))"

text \<open>A score with the same integer in every dimension, and scores with other tags.\<close>

definition uniformScore :: "rat \<Rightarrow> PromptScore" where
  "uniformScore v = sampleScore\<lparr>clarity := v, structure := v, usefulness := v, overall := v\<rparr>"

definition taggedScore :: "jsstring list \<Rightarrow> PromptScore" where
  "taggedScore ts = sampleScore\<lparr>suggestedTags := ts\<rparr>"

section \<open>Basic facts\<close>

lemma lit_Nil: "lit [] = []"
  by (simp add: lit_def)

lemma length_lit: "length (lit s) = length s"
  by (simp add: lit_def)

lemma unat_of_char: "unat (of_char c :: 16 word) = of_char c"
proof -
  have "(of_char c :: 16 word) = of_nat (of_char c)"
    by (simp only: of_nat_of_char)
  moreover have "(of_char c :: nat) < 2 ^ 16"
    by (rule less_trans [OF nat_of_char_less_256]) simp
  ultimately show ?thesis
    by (simp add: unat_of_nat del: of_nat_of_char)
qed

lemma of_char_word_eq_iff: "(of_char c :: 16 word) = of_char d \<longleftrightarrow> c = d"
proof
  assume "(of_char c :: 16 word) = of_char d"
  then have "unat (of_char c :: 16 word) = unat (of_char d :: 16 word)"
    by simp
  then show "c = d"
    by (simp only: unat_of_char of_char_eq_iff)
qed simp

lemma lit_eq_iff: "lit a = lit b \<longleftrightarrow> a = b"
proof -
  have "inj (of_char :: char \<Rightarrow> 16 word)"
    by (rule injI) (simp only: of_char_word_eq_iff)
  then show ?thesis
    by (simp add: lit_def inj_map_eq_map)
qed

lemma ceiling_quarter: "\<lceil>of_nat n / (4 :: rat)\<rceil> = int ((n + 3) div 4)"
proof -
  have "\<lceil>of_nat n / (4 :: rat)\<rceil> = \<lceil>of_int (int n) / (of_int 4 :: rat)\<rceil>"
    by simp
  also have "\<dots> = - ((- int n) div 4)"
    unfolding ceiling_divide_eq_div by simp
  also have "\<dots> = int ((n + 3) div 4)"
    by (simp add: zdiv_int)
  finally show ?thesis .
qed

section \<open>One evaluation\<close>

lemma evaluatePrompt_try_fails_iff:
  "(\<exists>f. evaluatePrompt_try api JSON_parse c t d = Inl f) \<longleftrightarrow>
   (api (evaluationRequest c t d) = Rejected
    \<or> (\<exists>completion. api (evaluationRequest c t d) = Resolved completion \<and>
          (responseContent completion = None \<or> responseContent completion = Some []
           \<or> (\<exists>text. responseContent completion = Some text \<and>
                 (JSON_parse text = None
                  \<or> (\<exists>j. JSON_parse text = Some j \<and> scoringSchema_parse j = None))))))"
  by (auto simp: evaluatePrompt_try_def split: api_outcome.splits option.splits if_splits)

lemma estimatedTokens_defaultScore_empty: "estimatedTokens (defaultScore []) = Some 0"
  by (simp add: defaultScore_def)

text \<open>
  Claim C1, as amended. \<open>evaluatePrompt\<close> returns a score for every input. Whenever
  the external call fails (the call rejects, the response has no content or an empty
  one, the content is not JSON, or the parsed value violates the scoring schema) the
  result is the fixed fallback: the four scores are 5, every reasoning string is the
  literal \<open>Evaluation failed - default score assigned\<close> written with the ASCII
  hyphen-minus, the tags are \<open>["untagged"]\<close>, the category is \<open>other\<close>, the complexity
  is \<open>intermediate\<close>, and \<open>estimatedTokens\<close> is the ceiling of a quarter of the length
  of the content, which is 0 for empty content.
\<close>

theorem evaluatePrompt_fallback:
  assumes "api (evaluationRequest c t d) = Rejected
    \<or> (\<exists>completion. api (evaluationRequest c t d) = Resolved completion \<and>
          (responseContent completion = None \<or> responseContent completion = Some []
           \<or> (\<exists>text. responseContent completion = Some text \<and>
                 (JSON_parse text = None
                  \<or> (\<exists>j. JSON_parse text = Some j \<and> scoringSchema_parse j = None)))))"
  shows "evaluatePrompt api JSON_parse c t d =
     \<lparr>clarity = 5, structure = 5, usefulness = 5, overall = 5,
      reasoning =
        \<lparr>reasoning_clarity = lit ''Evaluation failed - default score assigned'',
         reasoning_structure = lit ''Evaluation failed - default score assigned'',
         reasoning_usefulness = lit ''Evaluation failed - default score assigned'',
         reasoning_overall = lit ''Evaluation failed - default score assigned''\<rparr>,
      suggestedTags = [lit ''untagged''],
      category = lit ''other'',
      complexity = lit ''intermediate'',
      estimatedTokens = Some (of_int \<lceil>of_nat (length c) / (4 :: rat)\<rceil>)\<rparr>
    \<and> (c = [] \<longrightarrow> estimatedTokens (evaluatePrompt api JSON_parse c t d) = Some 0)"
proof -
  from assms obtain f where "evaluatePrompt_try api JSON_parse c t d = Inl f"
    using evaluatePrompt_try_fails_iff by blast
  then have eq: "evaluatePrompt api JSON_parse c t d = defaultScore c"
    by (simp add: evaluatePrompt_def)
  have p1: "evaluatePrompt api JSON_parse c t d =
     \<lparr>clarity = 5, structure = 5, usefulness = 5, overall = 5,
      reasoning =
        \<lparr>reasoning_clarity = lit ''Evaluation failed - default score assigned'',
         reasoning_structure = lit ''Evaluation failed - default score assigned'',
         reasoning_usefulness = lit ''Evaluation failed - default score assigned'',
         reasoning_overall = lit ''Evaluation failed - default score assigned''\<rparr>,
      suggestedTags = [lit ''untagged''],
      category = lit ''other'',
      complexity = lit ''intermediate'',
      estimatedTokens = Some (of_int \<lceil>of_nat (length c) / (4 :: rat)\<rceil>)\<rparr>"
    unfolding eq by (simp add: defaultScore_def)
  have p2: "c = [] \<longrightarrow> estimatedTokens (evaluatePrompt api JSON_parse c t d) = Some 0"
    unfolding eq using estimatedTokens_defaultScore_empty by blast
  from p1 p2 show ?thesis
    by (rule conjI)
qed

text \<open>The fallback at a rejected call, for a content of five code units and for the
  empty content.\<close>

theorem evaluatePrompt_fallback_witness:
  "evaluatePrompt (\<lambda>r. Rejected) (\<lambda>s. None) (lit ''abcde'') None None =
     \<lparr>clarity = 5, structure = 5, usefulness = 5, overall = 5,
      reasoning =
        \<lparr>reasoning_clarity = lit ''Evaluation failed - default score assigned'',
         reasoning_structure = lit ''Evaluation failed - default score assigned'',
         reasoning_usefulness = lit ''Evaluation failed - default score assigned'',
         reasoning_overall = lit ''Evaluation failed - default score assigned''\<rparr>,
      suggestedTags = [lit ''untagged''],
      category = lit ''other'',
      complexity = lit ''intermediate'',
      estimatedTokens = Some 2\<rparr>
   \<and> estimatedTokens (evaluatePrompt (\<lambda>r. Rejected) (\<lambda>s. None) [] None None) = Some 0"
proof -
  have len: "\<lceil>of_nat (length (lit ''abcde'')) / (4 :: rat)\<rceil> = 2"
    by (simp only: ceiling_quarter length_lit) simp
  have a: "(\<lambda>r. Rejected) (evaluationRequest (lit ''abcde'') None None) = Rejected"
    by simp
  have b: "(\<lambda>r. Rejected) (evaluationRequest [] None None) = Rejected"
    by simp
  from evaluatePrompt_fallback [of "\<lambda>r. Rejected" "lit ''abcde''" None None "\<lambda>s. None"] a
  have 1: "evaluatePrompt (\<lambda>r. Rejected) (\<lambda>s. None) (lit ''abcde'') None None =
     \<lparr>clarity = 5, structure = 5, usefulness = 5, overall = 5,
      reasoning =
        \<lparr>reasoning_clarity = lit ''Evaluation failed - default score assigned'',
         reasoning_structure = lit ''Evaluation failed - default score assigned'',
         reasoning_usefulness = lit ''Evaluation failed - default score assigned'',
         reasoning_overall = lit ''Evaluation failed - default score assigned''\<rparr>,
      suggestedTags = [lit ''untagged''],
      category = lit ''other'',
      complexity = lit ''intermediate'',
      estimatedTokens = Some (of_int \<lceil>of_nat (length (lit ''abcde'')) / (4 :: rat)\<rceil>)\<rparr>"
    by blast
  from evaluatePrompt_fallback [of "\<lambda>r. Rejected" "[]" None None "\<lambda>s. None"] b
  have 2: "estimatedTokens (evaluatePrompt (\<lambda>r. Rejected) (\<lambda>s. None) [] None None) = Some 0"
    by blast
  from 1 2 show ?thesis
    unfolding len by simp
qed

text \<open>
  Claim C1 as stated gives the reasoning literal with an em dash (U+2014) between
  \<open>failed\<close> and \<open>default\<close>. The string of the source has a hyphen-minus there.
\<close>

theorem evaluatePrompt_fallback_literal_counterexample:
  "reasoning_clarity (reasoning (evaluatePrompt (\<lambda>r. Rejected) (\<lambda>s. None) [] None None))
     \<noteq> lit ''Evaluation failed '' @ [0x2014] @ lit '' default score assigned''"
  by (simp add: evaluatePrompt_def evaluatePrompt_try_def defaultScore_def lit_def)

lemma zNumberMinMax_Some:
  "zNumberMinMax lo hi m = Some x \<Longrightarrow> m = Some (JNumber x) \<and> lo \<le> x \<and> x \<le> hi"
  by (erule zNumberMinMax.elims) (auto split: if_splits)

lemma zString_Some: "zString m = Some s \<Longrightarrow> m = Some (JString s)"
  by (erule zString.elims) auto

lemma zStrings_Some: "zStrings js = Some ss \<Longrightarrow> js = map JString ss"
proof (induction js arbitrary: ss)
  case Nil
  then show ?case by simp
next
  case (Cons j js)
  then show ?case
    by (auto split: option.splits dest: zString_Some)
qed

lemma zStringArrayMax_Some:
  "zStringArrayMax n m = Some ss \<Longrightarrow> m = Some (JArray (map JString ss)) \<and> length ss \<le> n"
  by (erule zStringArrayMax.elims) (auto split: if_splits dest!: zStrings_Some [OF sym])

lemma zEnum_Some: "zEnum vs m = Some s \<Longrightarrow> m = Some (JString s) \<and> s \<in> set vs"
  by (erule zEnum.elims) (auto split: if_splits)

lemma zNumberOptional_Some: "zNumberOptional m = Some et \<Longrightarrow> m = map_option JNumber et"
  by (erule zNumberOptional.elims) auto

lemma reasoningSchema_parse_Some:
  assumes "reasoningSchema_parse m = Some r"
  shows "\<exists>kvs. m = Some (JObject kvs)
     \<and> map_of kvs (lit ''clarity'') = Some (JString (reasoning_clarity r))
     \<and> map_of kvs (lit ''structure'') = Some (JString (reasoning_structure r))
     \<and> map_of kvs (lit ''usefulness'') = Some (JString (reasoning_usefulness r))
     \<and> map_of kvs (lit ''overall'') = Some (JString (reasoning_overall r))"
  using assms
  by (elim reasoningSchema_parse.elims)
     (auto split: Option.bind_splits dest!: zString_Some)

lemma scoringSchema_parse_Some:
  assumes "scoringSchema_parse j = Some v"
  shows "\<exists>kvs. j = JObject kvs
     \<and> zNumberMinMax 1 10 (map_of kvs (lit ''clarity'')) = Some (clarity v)
     \<and> zNumberMinMax 1 10 (map_of kvs (lit ''structure'')) = Some (structure v)
     \<and> zNumberMinMax 1 10 (map_of kvs (lit ''usefulness'')) = Some (usefulness v)
     \<and> zNumberMinMax 1 10 (map_of kvs (lit ''overall'')) = Some (overall v)
     \<and> reasoningSchema_parse (map_of kvs (lit ''reasoning'')) = Some (reasoning v)
     \<and> zStringArrayMax 10 (map_of kvs (lit ''suggestedTags'')) = Some (suggestedTags v)
     \<and> zEnum categoryValues (map_of kvs (lit ''category'')) = Some (category v)
     \<and> zEnum complexityValues (map_of kvs (lit ''complexity'')) = Some (complexity v)
     \<and> zNumberOptional (map_of kvs (lit ''estimatedTokens'')) = Some (estimatedTokens v)"
  using assms
  by (elim scoringSchema_parse.elims)
     (auto split: Option.bind_splits)

text \<open>
  Claim C4. When the call resolves with a content that parses to a value accepted by
  the scoring schema, \<open>evaluatePrompt\<close> returns exactly the validated data: every
  field of the result is the member of that name in the parsed response, the four
  scores lie between 1 and 10, there are at most 10 tags, and category and complexity
  are values of their enumerations.
\<close>

theorem evaluatePrompt_returns_validated:
  assumes "api (evaluationRequest c t d) = Resolved completion"
    and "responseContent completion = Some text" and "text \<noteq> []"
    and "JSON_parse text = Some j" and "scoringSchema_parse j = Some v"
  shows "evaluatePrompt api JSON_parse c t d = v
    \<and> (\<exists>kvs rs. j = JObject kvs
         \<and> map_of kvs (lit ''clarity'') = Some (JNumber (clarity v))
         \<and> map_of kvs (lit ''structure'') = Some (JNumber (structure v))
         \<and> map_of kvs (lit ''usefulness'') = Some (JNumber (usefulness v))
         \<and> map_of kvs (lit ''overall'') = Some (JNumber (overall v))
         \<and> map_of kvs (lit ''reasoning'') = Some (JObject rs)
         \<and> map_of rs (lit ''clarity'') = Some (JString (reasoning_clarity (reasoning v)))
         \<and> map_of rs (lit ''structure'') = Some (JString (reasoning_structure (reasoning v)))
         \<and> map_of rs (lit ''usefulness'') = Some (JString (reasoning_usefulness (reasoning v)))
         \<and> map_of rs (lit ''overall'') = Some (JString (reasoning_overall (reasoning v)))
         \<and> map_of kvs (lit ''suggestedTags'') = Some (JArray (map JString (suggestedTags v)))
         \<and> map_of kvs (lit ''category'') = Some (JString (category v))
         \<and> map_of kvs (lit ''complexity'') = Some (JString (complexity v))
         \<and> map_of kvs (lit ''estimatedTokens'') = map_option JNumber (estimatedTokens v))
    \<and> 1 \<le> clarity v \<and> clarity v \<le> 10
    \<and> 1 \<le> structure v \<and> structure v \<le> 10
    \<and> 1 \<le> usefulness v \<and> usefulness v \<le> 10
    \<and> 1 \<le> overall v \<and> overall v \<le> 10
    \<and> length (suggestedTags v) \<le> 10
    \<and> category v \<in> set categoryValues
    \<and> complexity v \<in> set complexityValues"
proof -
  have r: "evaluatePrompt api JSON_parse c t d = v"
    using assms by (simp add: evaluatePrompt_def evaluatePrompt_try_def)
  from scoringSchema_parse_Some [OF assms(5)] obtain kvs where kvs:
    "j = JObject kvs"
    "zNumberMinMax 1 10 (map_of kvs (lit ''clarity'')) = Some (clarity v)"
    "zNumberMinMax 1 10 (map_of kvs (lit ''structure'')) = Some (structure v)"
    "zNumberMinMax 1 10 (map_of kvs (lit ''usefulness'')) = Some (usefulness v)"
    "zNumberMinMax 1 10 (map_of kvs (lit ''overall'')) = Some (overall v)"
    "reasoningSchema_parse (map_of kvs (lit ''reasoning'')) = Some (reasoning v)"
    "zStringArrayMax 10 (map_of kvs (lit ''suggestedTags'')) = Some (suggestedTags v)"
    "zEnum categoryValues (map_of kvs (lit ''category'')) = Some (category v)"
    "zEnum complexityValues (map_of kvs (lit ''complexity'')) = Some (complexity v)"
    "zNumberOptional (map_of kvs (lit ''estimatedTokens'')) = Some (estimatedTokens v)"
    by blast
  from reasoningSchema_parse_Some [OF kvs(6)] obtain rs where rs:
    "map_of kvs (lit ''reasoning'') = Some (JObject rs)"
    "map_of rs (lit ''clarity'') = Some (JString (reasoning_clarity (reasoning v)))"
    "map_of rs (lit ''structure'') = Some (JString (reasoning_structure (reasoning v)))"
    "map_of rs (lit ''usefulness'') = Some (JString (reasoning_usefulness (reasoning v)))"
    "map_of rs (lit ''overall'') = Some (JString (reasoning_overall (reasoning v)))"
    by blast
  note n1 = zNumberMinMax_Some [OF kvs(2)] and n2 = zNumberMinMax_Some [OF kvs(3)]
    and n3 = zNumberMinMax_Some [OF kvs(4)] and n4 = zNumberMinMax_Some [OF kvs(5)]
    and ts = zStringArrayMax_Some [OF kvs(7)]
    and e1 = zEnum_Some [OF kvs(8)] and e2 = zEnum_Some [OF kvs(9)]
    and et = zNumberOptional_Some [OF kvs(10)]
  have unmodified: "\<exists>kvs rs. j = JObject kvs
         \<and> map_of kvs (lit ''clarity'') = Some (JNumber (clarity v))
         \<and> map_of kvs (lit ''structure'') = Some (JNumber (structure v))
         \<and> map_of kvs (lit ''usefulness'') = Some (JNumber (usefulness v))
         \<and> map_of kvs (lit ''overall'') = Some (JNumber (overall v))
         \<and> map_of kvs (lit ''reasoning'') = Some (JObject rs)
         \<and> map_of rs (lit ''clarity'') = Some (JString (reasoning_clarity (reasoning v)))
         \<and> map_of rs (lit ''structure'') = Some (JString (reasoning_structure (reasoning v)))
         \<and> map_of rs (lit ''usefulness'') = Some (JString (reasoning_usefulness (reasoning v)))
         \<and> map_of rs (lit ''overall'') = Some (JString (reasoning_overall (reasoning v)))
         \<and> map_of kvs (lit ''suggestedTags'') = Some (JArray (map JString (suggestedTags v)))
         \<and> map_of kvs (lit ''category'') = Some (JString (category v))
         \<and> map_of kvs (lit ''complexity'') = Some (JString (complexity v))
         \<and> map_of kvs (lit ''estimatedTokens'') = map_option JNumber (estimatedTokens v)"
    using kvs(1) rs n1 n2 n3 n4 ts e1 e2 et by blast
  from r unmodified n1 n2 n3 n4 ts e1 e2 show ?thesis
    by blast
qed

lemma sampleResponseText_not_empty: "sampleResponseText \<noteq> []"
  by (simp add: sampleResponseText_def lit_def)

lemma scoringSchema_parse_sample: "scoringSchema_parse sampleResponseJson = Some sampleScore"
  by (simp add: sampleResponseJson_def sampleScore_def lit_eq_iff categoryValues_def
      complexityValues_def)

lemma responseContent_sample: "responseContent sampleCompletion = Some sampleResponseText"
  by (simp add: responseContent_def sampleCompletion_def)

lemma evaluatePrompt_sample:
  "evaluatePrompt (\<lambda>r. Resolved sampleCompletion) sampleParse c t d = sampleScore"
  by (simp add: evaluatePrompt_def evaluatePrompt_try_def responseContent_sample
      sampleResponseText_not_empty sampleParse_def scoringSchema_parse_sample)

text \<open>The sample response is returned as validated.\<close>

theorem evaluatePrompt_returns_validated_witness:
  "evaluatePrompt (\<lambda>r. Resolved sampleCompletion) sampleParse (lit ''Write a haiku'') None None
     = sampleScore
   \<and> clarity sampleScore \<le> 10 \<and> length (suggestedTags sampleScore) \<le> 10
   \<and> category sampleScore \<in> set categoryValues"
proof -
  have a: "(\<lambda>r. Resolved sampleCompletion) (evaluationRequest (lit ''Write a haiku'') None None)
      = Resolved sampleCompletion"
    by simp
  have p: "sampleParse sampleResponseText = Some sampleResponseJson"
    by (simp add: sampleParse_def)
  from evaluatePrompt_returns_validated
    [of "\<lambda>r. Resolved sampleCompletion" "lit ''Write a haiku''" None None sampleCompletion
        sampleResponseText sampleParse sampleResponseJson sampleScore,
     OF a responseContent_sample sampleResponseText_not_empty p scoringSchema_parse_sample]
  show ?thesis
    by blast
qed

text \<open>
  Claim C5. The claim has every score an integer from 1 to 10, and the table that
  stores the scores declares them so. The schema checks the range and not that the
  number is whole: the sample response, whose clarity is 7.5, passes validation, and
  \<open>evaluatePrompt\<close> returns it with a clarity that is not an integer.
\<close>

theorem fractional_score_accepted:
  "scoringSchema_parse sampleResponseJson = Some sampleScore
   \<and> evaluatePrompt (\<lambda>r. Resolved sampleCompletion) sampleParse
        (lit ''Write a haiku'') None None = sampleScore
   \<and> clarity (evaluatePrompt (\<lambda>r. Resolved sampleCompletion) sampleParse
        (lit ''Write a haiku'') None None) = 15 / 2
   \<and> clarity (evaluatePrompt (\<lambda>r. Resolved sampleCompletion) sampleParse
        (lit ''Write a haiku'') None None) \<notin> \<int>"
  by (simp add: evaluatePrompt_sample scoringSchema_parse_sample sampleScore_def)

lemma evaluatePrompt_try_Inr:
  "evaluatePrompt_try api JSON_parse c t d = Inr v \<Longrightarrow> \<exists>j. scoringSchema_parse j = Some v"
  by (auto simp: evaluatePrompt_try_def split: api_outcome.splits option.splits if_splits)

lemma scoringSchema_parse_range:
  assumes "scoringSchema_parse j = Some v"
  shows "1 \<le> clarity v \<and> clarity v \<le> 10
    \<and> 1 \<le> structure v \<and> structure v \<le> 10
    \<and> 1 \<le> usefulness v \<and> usefulness v \<le> 10
    \<and> 1 \<le> overall v \<and> overall v \<le> 10
    \<and> category v \<in> set categoryValues
    \<and> complexity v \<in> set complexityValues"
proof -
  from scoringSchema_parse_Some [OF assms] obtain kvs where kvs:
    "zNumberMinMax 1 10 (map_of kvs (lit ''clarity'')) = Some (clarity v)"
    "zNumberMinMax 1 10 (map_of kvs (lit ''structure'')) = Some (structure v)"
    "zNumberMinMax 1 10 (map_of kvs (lit ''usefulness'')) = Some (usefulness v)"
    "zNumberMinMax 1 10 (map_of kvs (lit ''overall'')) = Some (overall v)"
    "zEnum categoryValues (map_of kvs (lit ''category'')) = Some (category v)"
    "zEnum complexityValues (map_of kvs (lit ''complexity'')) = Some (complexity v)"
    by blast
  show ?thesis
    using zNumberMinMax_Some [OF kvs(1)] zNumberMinMax_Some [OF kvs(2)]
      zNumberMinMax_Some [OF kvs(3)] zNumberMinMax_Some [OF kvs(4)]
      zEnum_Some [OF kvs(5)] zEnum_Some [OF kvs(6)]
    by blast
qed

lemma defaultScore_range:
  "1 \<le> clarity (defaultScore c) \<and> clarity (defaultScore c) \<le> 10
    \<and> 1 \<le> structure (defaultScore c) \<and> structure (defaultScore c) \<le> 10
    \<and> 1 \<le> usefulness (defaultScore c) \<and> usefulness (defaultScore c) \<le> 10
    \<and> 1 \<le> overall (defaultScore c) \<and> overall (defaultScore c) \<le> 10
    \<and> category (defaultScore c) \<in> set categoryValues
    \<and> complexity (defaultScore c) \<in> set complexityValues"
  by (simp add: defaultScore_def categoryValues_def complexityValues_def)

text \<open>What the schema and the fallback do ensure of a score that \<open>evaluatePrompt\<close>
  returns: the range of the four numbers and the two enumerations.\<close>

lemma evaluatePrompt_range:
  "1 \<le> clarity (evaluatePrompt api JSON_parse c t d)
    \<and> clarity (evaluatePrompt api JSON_parse c t d) \<le> 10
    \<and> 1 \<le> structure (evaluatePrompt api JSON_parse c t d)
    \<and> structure (evaluatePrompt api JSON_parse c t d) \<le> 10
    \<and> 1 \<le> usefulness (evaluatePrompt api JSON_parse c t d)
    \<and> usefulness (evaluatePrompt api JSON_parse c t d) \<le> 10
    \<and> 1 \<le> overall (evaluatePrompt api JSON_parse c t d)
    \<and> overall (evaluatePrompt api JSON_parse c t d) \<le> 10
    \<and> category (evaluatePrompt api JSON_parse c t d) \<in> set categoryValues
    \<and> complexity (evaluatePrompt api JSON_parse c t d) \<in> set complexityValues"
proof (cases "evaluatePrompt_try api JSON_parse c t d")
  case (Inl f)
  then have "evaluatePrompt api JSON_parse c t d = defaultScore c"
    by (simp add: evaluatePrompt_def)
  then show ?thesis
    using defaultScore_range [of c] by simp
next
  case (Inr v)
  then have "evaluatePrompt api JSON_parse c t d = v"
    by (simp add: evaluatePrompt_def)
  moreover obtain j where "scoringSchema_parse j = Some v"
    using evaluatePrompt_try_Inr [OF Inr] by blast
  ultimately show ?thesis
    using scoringSchema_parse_range by simp
qed

section \<open>Automatic tags\<close>

lemma generateAutoTags_try_fails_iff:
  "(\<exists>f. generateAutoTags_try api JSON_parse c t d = Inl f) \<longleftrightarrow>
   (api (taggingRequest c t d) = Rejected
    \<or> (\<exists>completion. api (taggingRequest c t d) = Resolved completion \<and>
          (responseContent completion = None \<or> responseContent completion = Some []
           \<or> (\<exists>text. responseContent completion = Some text \<and>
                 (JSON_parse text = None
                  \<or> (\<exists>j. JSON_parse text = Some j \<and> autoTagSchema_parse j = None))))))"
  by (auto simp: generateAutoTags_try_def split: api_outcome.splits option.splits if_splits)

text \<open>
  Claim C9, as amended. \<open>generateAutoTags\<close> returns a result for every input. Whenever
  the tagging call fails (the call rejects, the response has no content or an empty
  one, the content is not JSON, or the parsed value violates the tagging schema) the
  result is the fallback with the tags \<open>["prompt", "untagged"]\<close>, the confidence 0.1
  and the reasoning \<open>Auto-tagging failed - default tags assigned\<close>, written with the
  ASCII hyphen-minus and without a full stop.
\<close>

theorem generateAutoTags_fallback:
  assumes "api (taggingRequest c t d) = Rejected
    \<or> (\<exists>completion. api (taggingRequest c t d) = Resolved completion \<and>
          (responseContent completion = None \<or> responseContent completion = Some []
           \<or> (\<exists>text. responseContent completion = Some text \<and>
                 (JSON_parse text = None
                  \<or> (\<exists>j. JSON_parse text = Some j \<and> autoTagSchema_parse j = None)))))"
  shows "generateAutoTags api JSON_parse c t d =
     \<lparr>tags = [lit ''prompt'', lit ''untagged''],
      confidence = 1 / 10,
      autoTag_reasoning = lit ''Auto-tagging failed - default tags assigned''\<rparr>"
proof -
  from assms obtain f where "generateAutoTags_try api JSON_parse c t d = Inl f"
    using generateAutoTags_try_fails_iff by blast
  then show ?thesis
    by (simp add: generateAutoTags_def defaultTags_def)
qed

text \<open>The fallback for a response whose content is not JSON.\<close>

theorem generateAutoTags_fallback_witness:
  "generateAutoTags (\<lambda>r. Resolved sampleCompletion) (\<lambda>s. None) (lit ''Write a haiku'') None None =
     \<lparr>tags = [lit ''prompt'', lit ''untagged''],
      confidence = 1 / 10,
      autoTag_reasoning = lit ''Auto-tagging failed - default tags assigned''\<rparr>"
proof -
  have "(\<lambda>r. Resolved sampleCompletion) (taggingRequest (lit ''Write a haiku'') None None)
          = Resolved sampleCompletion
      \<and> responseContent sampleCompletion = Some sampleResponseText
      \<and> (\<lambda>s. None) sampleResponseText = (None :: json option)"
    by (simp add: responseContent_sample)
  then show ?thesis
    using generateAutoTags_fallback
      [of "\<lambda>r. Resolved sampleCompletion" "lit ''Write a haiku''" None None "\<lambda>s. None"]
    by blast
qed

text \<open>
  Claim C9 as stated gives the reasoning with an em dash (U+2014) and a closing full
  stop. The string of the source has a hyphen-minus and no full stop: it differs from
  the literal of the claim, read with or without the full stop.
\<close>

theorem generateAutoTags_fallback_literal_counterexample:
  "autoTag_reasoning (generateAutoTags (\<lambda>r. Rejected) (\<lambda>s. None) [] None None)
     \<noteq> lit ''Auto-tagging failed '' @ [0x2014] @ lit '' default tags assigned.''
   \<and> autoTag_reasoning (generateAutoTags (\<lambda>r. Rejected) (\<lambda>s. None) [] None None)
     \<noteq> lit ''Auto-tagging failed '' @ [0x2014] @ lit '' default tags assigned''"
  by (simp add: generateAutoTags_def generateAutoTags_try_def defaultTags_def lit_def)

section \<open>Batches\<close>

lemma evaluateWindow_results:
  "fst (evaluateWindow evaluate k batch)
     = map (\<lambda>(j, p). fst (evaluateItem evaluate j p)) (enumerate k batch)"
  by (induction batch arbitrary: k) (simp_all add: case_prod_beta)

lemma evaluateWindow_issued:
  "snd (evaluateWindow evaluate k batch)
     = concat (map (\<lambda>(j, p). snd (evaluateItem evaluate j p)) (enumerate k batch))"
  by (induction batch arbitrary: k) (simp_all add: case_prod_beta)

lemma enumerate_window_split:
  "enumerate i (take n xs) @ enumerate (i + n) (drop n xs) = enumerate i xs"
proof (cases "n \<le> length xs")
  case True
  have "enumerate i xs = enumerate i (take n xs @ drop n xs)"
    by simp
  also have "\<dots> = enumerate i (take n xs) @ enumerate (i + length (take n xs)) (drop n xs)"
    by (rule enumerate_append_eq)
  finally show ?thesis
    using True by (simp add: min_def)
next
  case False
  then show ?thesis by simp
qed

lemma batchLoop_results:
  "fst (batchLoop evaluate prompts i results trace)
     = results @ map (\<lambda>(j, p). fst (evaluateItem evaluate j p)) (enumerate i (drop i prompts))"
proof (induction evaluate prompts i results trace rule: batchLoop.induct)
  case (1 evaluate prompts i results trace)
  show ?case
  proof (cases "i < length prompts")
    case True
    obtain batchResults issued where w:
      "evaluateWindow evaluate i (array_slice prompts i (i + batchSize)) = (batchResults, issued)"
      by (cases "evaluateWindow evaluate i (array_slice prompts i (i + batchSize))")
    have br: "batchResults
        = map (\<lambda>(j, p). fst (evaluateItem evaluate j p))
            (enumerate i (take batchSize (drop i prompts)))"
      using evaluateWindow_results [of evaluate i "array_slice prompts i (i + batchSize)"] w
      by (simp add: array_slice_def)
    have "fst (batchLoop evaluate prompts i results trace)
        = fst (batchLoop evaluate prompts (i + batchSize) (results @ batchResults)
            (trace @ issued @ [AwaitAll] @
              (if i + batchSize < length prompts then [Sleep 1000] else [])))"
      using True w by (subst batchLoop.simps) simp
    also have "\<dots> = (results @ batchResults)
        @ map (\<lambda>(j, p). fst (evaluateItem evaluate j p))
            (enumerate (i + batchSize) (drop (i + batchSize) prompts))"
      using "1.IH" [OF True w [symmetric]] .
    also have "\<dots> = results @ map (\<lambda>(j, p). fst (evaluateItem evaluate j p))
            (enumerate i (take batchSize (drop i prompts))
              @ enumerate (i + batchSize) (drop batchSize (drop i prompts)))"
      by (simp add: br add.commute)
    finally show ?thesis
      by (simp only: enumerate_window_split)
  next
    case False
    then show ?thesis
      by (subst batchLoop.simps) simp
  qed
qed

lemma batchEvaluateWith_results:
  "fst (batchEvaluateWith evaluate prompts)
     = map (\<lambda>(j, p). fst (evaluateItem evaluate j p)) (enumerate 0 prompts)"
  by (simp add: batchEvaluateWith_def batchLoop_results)

lemma batchEvaluateWith_nth:
  assumes "k < length prompts"
  shows "fst (batchEvaluateWith evaluate prompts) ! k = fst (evaluateItem evaluate k (prompts ! k))"
  using assms by (simp add: batchEvaluateWith_results nth_enumerate_eq)

lemma result_id_evaluateItem: "result_id (fst (evaluateItem evaluate k p)) = item_id p"
  by (simp add: evaluateItem_def split: prod.splits sum.splits)

lemma batchEvaluateWith_ids:
  "map result_id (fst (batchEvaluateWith evaluate prompts)) = map item_id prompts"
proof -
  have "map result_id (fst (batchEvaluateWith evaluate prompts))
      = map (\<lambda>(j, p). item_id p) (enumerate 0 prompts)"
    by (simp add: batchEvaluateWith_results result_id_evaluateItem split_def)
  also have "\<dots> = map (item_id \<circ> snd) (enumerate 0 prompts)"
    by (simp add: split_def comp_def)
  also have "\<dots> = map item_id (map snd (enumerate 0 prompts))"
    by (simp only: map_map)
  finally show ?thesis
    by simp
qed

lemma batchEvaluateWith_Nil: "batchEvaluateWith evaluate [] = ([], [])"
  unfolding batchEvaluateWith_def by (subst batchLoop.simps) simp

text \<open>
  Claim C2. For every input sequence, \<open>batchEvaluatePrompts\<close> returns one result per
  item, in the order of the input: the result at position \<open>k\<close> carries the id of the
  item at position \<open>k\<close> and the score of its evaluation. The count and the ids are
  the same for a batch over any evaluation, one that rejects included. For the empty
  input the result is the empty sequence and no call is issued.
\<close>

theorem batch_results_in_order:
  "fst (batchEvaluatePrompts api JSON_parse prompts)
     = map (\<lambda>(k, p). \<lparr>result_id = item_id p,
                       score = evaluatePrompt (api k) JSON_parse (content p) (title p) (description p),
                       error = None\<rparr>)
         (enumerate 0 prompts)
   \<and> length (fst (batchEvaluatePrompts api JSON_parse prompts)) = length prompts
   \<and> map result_id (fst (batchEvaluatePrompts api JSON_parse prompts)) = map item_id prompts
   \<and> length (fst (batchEvaluateWith evaluate prompts)) = length prompts
   \<and> map result_id (fst (batchEvaluateWith evaluate prompts)) = map item_id prompts
   \<and> batchEvaluatePrompts api JSON_parse [] = ([], [])"
proof -
  have 1: "fst (batchEvaluatePrompts api JSON_parse prompts)
     = map (\<lambda>(k, p). \<lparr>result_id = item_id p,
                       score = evaluatePrompt (api k) JSON_parse (content p) (title p) (description p),
                       error = None\<rparr>)
         (enumerate 0 prompts)"
    by (simp add: batchEvaluatePrompts_def batchEvaluateWith_results evaluateItem_def
        evaluatePromptOf_def)
  have 2: "length (fst (batchEvaluateWith ev prompts)) = length prompts" for ev
    by (simp add: batchEvaluateWith_results)
  have 3: "batchEvaluatePrompts api JSON_parse [] = ([], [])"
    by (simp add: batchEvaluatePrompts_def batchEvaluateWith_Nil)
  show ?thesis
    using 1 2 [of evaluate] 2 [of "evaluatePromptOf api JSON_parse"] 3
      batchEvaluateWith_ids [of evaluate prompts]
      batchEvaluateWith_ids [of "evaluatePromptOf api JSON_parse" prompts]
    by (simp only: batchEvaluatePrompts_def simp_thms)
qed

lemma evaluateItem_rejected:
  "fst (evaluate k p) = Inl e \<Longrightarrow>
   fst (evaluateItem evaluate k p)
     = \<lparr>result_id = item_id p, score = failedScore, error = Some (errorMessage e)\<rparr>"
  by (cases "evaluate k p") (simp add: evaluateItem_def)


lemma evaluateItem_error_set:
  "error (fst (evaluateItem evaluate k p)) \<noteq> None \<Longrightarrow> score (fst (evaluateItem evaluate k p)) = failedScore"
  by (cases "evaluate k p") (auto simp: evaluateItem_def split: sum.splits)

lemma batchEvaluateWith_length:
  "length (fst (batchEvaluateWith evaluate prompts)) = length prompts"
  by (simp add: batchEvaluateWith_results)



text \<open>
  Claim C10. The pessimistic score that the batch substitutes for a rejected evaluation
  has no \<open>estimatedTokens\<close>, whereas the fallback of \<open>evaluatePrompt\<close> always has one:
  every result of a batch whose error is set has the pessimistic score, and so a score
  without \<open>estimatedTokens\<close>.
\<close>

theorem failed_results_lack_estimatedTokens:
  "estimatedTokens failedScore = None
   \<and> estimatedTokens (defaultScore c) = Some (of_int \<lceil>of_nat (length c) / (4 :: rat)\<rceil>)
   \<and> (\<forall>r \<in> set (fst (batchEvaluateWith evaluate prompts)).
         error r \<noteq> None \<longrightarrow> score r = failedScore \<and> estimatedTokens (score r) = None)"
proof -
  have a: "estimatedTokens failedScore = None"
    by (simp add: failedScore_def)
  have b: "estimatedTokens (defaultScore c) = Some (of_int \<lceil>of_nat (length c) / (4 :: rat)\<rceil>)"
    by (simp add: defaultScore_def)
  have c: "\<forall>r \<in> set (fst (batchEvaluateWith evaluate prompts)).
         error r \<noteq> None \<longrightarrow> score r = failedScore \<and> estimatedTokens (score r) = None"
  proof (intro ballI impI)
    fix r assume "r \<in> set (fst (batchEvaluateWith evaluate prompts))" and e: "error r \<noteq> None"
    then obtain j p where "r = fst (evaluateItem evaluate j p)"
      by (auto simp: batchEvaluateWith_results)
    with e have "score r = failedScore"
      using evaluateItem_error_set by blast
    with a show "score r = failedScore \<and> estimatedTokens (score r) = None"
      by simp
  qed
  from a b c show ?thesis
    by blast
qed

text \<open>The result of the rejected second item of three has its error set and a score
  without \<open>estimatedTokens\<close>.\<close>

theorem failed_results_lack_estimatedTokens_witness:
  "error (fst (batchEvaluateWith rejectingSecond [sampleItem 0, sampleItem 1, sampleItem 2]) ! 1) \<noteq> None
   \<and> estimatedTokens (score (fst (batchEvaluateWith rejectingSecond
         [sampleItem 0, sampleItem 1, sampleItem 2]) ! 1)) = None"
proof -
  let ?ps = "[sampleItem 0, sampleItem 1, sampleItem 2]"
  let ?rs = "fst (batchEvaluateWith rejectingSecond ?ps)"
  have r1: "?rs ! 1 = \<lparr>result_id = item_id (sampleItem 1), score = failedScore,
         error = Some (lit ''Request timed out'')\<rparr>"
    by (simp add: batchEvaluateWith_nth evaluateItem_rejected rejectingSecond_def)
  then have e: "error (?rs ! 1) \<noteq> None"
    by simp
  have "?rs ! 1 \<in> set ?rs"
    by (rule nth_mem) (simp add: batchEvaluateWith_length)
  with e failed_results_lack_estimatedTokens [of "[]" rejectingSecond ?ps]
  have "estimatedTokens (score (?rs ! 1)) = None"
    by blast
  with e show ?thesis
    by blast
qed

section \<open>Windows\<close>

lemma windowsOf_Nil [simp]: "windowsOf n [] = []"
  by (subst windowsOf.simps) simp

lemma windowsOf_step:
  "xs \<noteq> [] \<Longrightarrow> 0 < n \<Longrightarrow> windowsOf n xs = take n xs # windowsOf n (drop n xs)"
  by (subst windowsOf.simps) simp

lemma concat_windowsOf: "0 < n \<Longrightarrow> concat (windowsOf n xs) = xs"
proof (induction n xs rule: windowsOf.induct)
  case (1 n xs)
  show ?case
  proof (cases "xs = []")
    case True
    then show ?thesis by simp
  next
    case False
    with "1.prems" have "windowsOf n xs = take n xs # windowsOf n (drop n xs)"
      by (simp add: windowsOf_step)
    moreover have "concat (windowsOf n (drop n xs)) = drop n xs"
      using "1.IH" False "1.prems" by simp
    ultimately show ?thesis
      by simp
  qed
qed

lemma windowsOf_sizes:
  "0 < n \<Longrightarrow> list_all (\<lambda>w. 0 < length w \<and> length w \<le> n) (windowsOf n xs)"
proof (induction n xs rule: windowsOf.induct)
  case (1 n xs)
  show ?case
  proof (cases "xs = []")
    case True
    then show ?thesis by simp
  next
    case False
    with "1.prems" have "windowsOf n xs = take n xs # windowsOf n (drop n xs)"
      by (simp add: windowsOf_step)
    moreover have "list_all (\<lambda>w. 0 < length w \<and> length w \<le> n) (windowsOf n (drop n xs))"
      using "1.IH" False "1.prems" by simp
    ultimately show ?thesis
      using False "1.prems" by simp
  qed
qed

lemma windowsOf_full_but_last:
  "0 < n \<Longrightarrow> list_all (\<lambda>w. length w = n) (butlast (windowsOf n xs))"
proof (induction n xs rule: windowsOf.induct)
  case (1 n xs)
  show ?case
  proof (cases "xs = []")
    case True
    then show ?thesis by simp
  next
    case False
    with "1.prems" have step: "windowsOf n xs = take n xs # windowsOf n (drop n xs)"
      by (simp add: windowsOf_step)
    have ih: "list_all (\<lambda>w. length w = n) (butlast (windowsOf n (drop n xs)))"
      using "1.IH" False "1.prems" by simp
    show ?thesis
    proof (cases "drop n xs = []")
      case True
      with step show ?thesis by simp
    next
      case False
      then have "n < length xs" by simp
      moreover from False "1.prems" have "windowsOf n (drop n xs) \<noteq> []"
        by (simp add: windowsOf_step)
      ultimately show ?thesis
        using step ih by simp
    qed
  qed
qed

lemma windowsOf_empty_iff: "0 < n \<Longrightarrow> windowsOf n xs = [] \<longleftrightarrow> xs = []"
  by (cases "xs = []") (simp_all add: windowsOf_step)

lemma evaluateWindow_evaluatePromptOf_issued:
  "snd (evaluateWindow (evaluatePromptOf api JSON_parse) k batch) = map callOf batch"
  by (induction batch arbitrary: k)
     (simp_all add: case_prod_beta evaluateItem_def evaluatePromptOf_def callOf_def)

lemma windowTrace_Cons:
  "windowTrace (w # ws)
     = map callOf w @ [AwaitAll] @ (if ws = [] then [] else [Sleep 1000]) @ windowTrace ws"
  by (cases ws) simp_all

lemma batchLoop_trace:
  "snd (batchLoop (evaluatePromptOf api JSON_parse) prompts i results trace)
     = trace @ windowTrace (windowsOf batchSize (drop i prompts))"
proof (induction "evaluatePromptOf api JSON_parse" prompts i results trace rule: batchLoop.induct)
  case (1 prompts i results trace)
  let ?ev = "evaluatePromptOf api JSON_parse"
  show ?case
  proof (cases "i < length prompts")
    case True
    obtain batchResults issued where w:
      "evaluateWindow ?ev i (array_slice prompts i (i + batchSize)) = (batchResults, issued)"
      by (cases "evaluateWindow ?ev i (array_slice prompts i (i + batchSize))")
    have issued: "issued = map callOf (take batchSize (drop i prompts))"
      using evaluateWindow_evaluatePromptOf_issued [of api JSON_parse i "array_slice prompts i (i + batchSize)"] w
      by (simp add: array_slice_def)
    have ne: "drop i prompts \<noteq> []"
      using True by simp
    have pos: "0 < batchSize"
      by (simp add: batchSize_def)
    have ws: "windowsOf batchSize (drop i prompts)
        = take batchSize (drop i prompts) # windowsOf batchSize (drop (i + batchSize) prompts)"
      using windowsOf_step [OF ne pos] by (simp add: add.commute)
    have more: "(i + batchSize < length prompts) \<longleftrightarrow> windowsOf batchSize (drop (i + batchSize) prompts) \<noteq> []"
      using windowsOf_empty_iff [OF pos, of "drop (i + batchSize) prompts"] by auto
    have "snd (batchLoop ?ev prompts i results trace)
        = snd (batchLoop ?ev prompts (i + batchSize) (results @ batchResults)
            (trace @ issued @ [AwaitAll] @
              (if i + batchSize < length prompts then [Sleep 1000] else [])))"
      using True w by (subst batchLoop.simps) simp
    also have "\<dots> = (trace @ issued @ [AwaitAll] @
              (if i + batchSize < length prompts then [Sleep 1000] else []))
        @ windowTrace (windowsOf batchSize (drop (i + batchSize) prompts))"
      using "1.hyps" [OF True w [symmetric]] .
    also have "\<dots> = trace @ windowTrace (windowsOf batchSize (drop i prompts))"
      unfolding ws windowTrace_Cons issued more by simp
    finally show ?thesis .
  next
    case False
    then show ?thesis
      by (subst batchLoop.simps) simp
  qed
qed

lemma batchEvaluatePrompts_trace:
  "snd (batchEvaluatePrompts api JSON_parse prompts) = windowTrace (windowsOf batchSize prompts)"
  by (simp add: batchEvaluatePrompts_def batchEvaluateWith_def batchLoop_trace)

lemma filter_isSleep_calls: "filter isSleep (map callOf w) = []"
  by (induction w) (simp_all add: callOf_def)

lemma sleeps_windowTrace: "length (filter isSleep (windowTrace ws)) = length ws - 1"
proof (induction ws rule: windowTrace.induct)
  case 1
  then show ?case by simp
next
  case (2 w)
  then show ?case by (simp add: filter_isSleep_calls)
next
  case (3 w v va)
  then show ?case by (simp add: filter_isSleep_calls)
qed

lemma sleeps_are_one_second:
  "list_all (\<lambda>e. e = Sleep 1000) (filter isSleep (windowTrace ws))"
proof (induction ws rule: windowTrace.induct)
  case 1
  then show ?case by simp
next
  case (2 w)
  then show ?case by (simp add: filter_isSleep_calls)
next
  case (3 w v va)
  then show ?case by (simp add: filter_isSleep_calls)
qed

lemma windowsOf_twelve:
  assumes "length xs = 12"
  shows "map length (windowsOf 5 xs) = [5, 5, 2]"
proof -
  have 1: "windowsOf 5 xs = take 5 xs # windowsOf 5 (drop 5 xs)"
    using assms by (intro windowsOf_step) auto
  have 2: "windowsOf 5 (drop 5 xs) = take 5 (drop 5 xs) # windowsOf 5 (drop 5 (drop 5 xs))"
    using assms by (intro windowsOf_step) auto
  have 3: "windowsOf 5 (drop 5 (drop 5 xs))
      = take 5 (drop 5 (drop 5 xs)) # windowsOf 5 (drop 5 (drop 5 (drop 5 xs)))"
    using assms by (intro windowsOf_step) auto
  have 4: "windowsOf 5 (drop 5 (drop 5 (drop 5 xs))) = []"
    using assms by simp
  show ?thesis
    unfolding 1 2 3 4 using assms by simp
qed

text \<open>
  Claim C6. \<open>batchEvaluatePrompts\<close> works through the contiguous windows of 5 items of
  its input, the last window possibly shorter: the calls of a window are all issued,
  in the order of its items, before the wait for the whole window, and a timer of one
  second (1000 ms) follows every window but the last. For 12 items these are three
  windows of 5, 5 and 2 items with two pauses.
\<close>

theorem batch_windows:
  "snd (batchEvaluatePrompts api JSON_parse prompts) = windowTrace (windowsOf batchSize prompts)
   \<and> batchSize = 5
   \<and> concat (windowsOf batchSize prompts) = prompts
   \<and> list_all (\<lambda>w. 0 < length w \<and> length w \<le> 5) (windowsOf batchSize prompts)
   \<and> list_all (\<lambda>w. length w = 5) (butlast (windowsOf batchSize prompts))
   \<and> length (filter isSleep (snd (batchEvaluatePrompts api JSON_parse prompts)))
        = length (windowsOf batchSize prompts) - 1
   \<and> list_all (\<lambda>e. e = Sleep 1000) (filter isSleep (snd (batchEvaluatePrompts api JSON_parse prompts)))
   \<and> (length prompts = 12 \<longrightarrow>
         map length (windowsOf batchSize prompts) = [5, 5, 2]
         \<and> length (filter isSleep (snd (batchEvaluatePrompts api JSON_parse prompts))) = 2)"
proof -
  have pos: "0 < batchSize" and five: "batchSize = 5"
    by (simp_all add: batchSize_def)
  note tr = batchEvaluatePrompts_trace [of api JSON_parse prompts]
  have c: "concat (windowsOf batchSize prompts) = prompts"
    using concat_windowsOf [OF pos] .
  have s: "list_all (\<lambda>w. 0 < length w \<and> length w \<le> 5) (windowsOf batchSize prompts)"
    using windowsOf_sizes [OF pos, of prompts] by (simp only: five)
  have f: "list_all (\<lambda>w. length w = 5) (butlast (windowsOf batchSize prompts))"
    using windowsOf_full_but_last [OF pos, of prompts] by (simp only: five)
  have n: "length (filter isSleep (snd (batchEvaluatePrompts api JSON_parse prompts)))
        = length (windowsOf batchSize prompts) - 1"
    by (simp only: tr sleeps_windowTrace)
  have o: "list_all (\<lambda>e. e = Sleep 1000) (filter isSleep (snd (batchEvaluatePrompts api JSON_parse prompts)))"
    by (simp only: tr sleeps_are_one_second)
  have t: "length prompts = 12 \<longrightarrow>
         map length (windowsOf batchSize prompts) = [5, 5, 2]
         \<and> length (filter isSleep (snd (batchEvaluatePrompts api JSON_parse prompts))) = 2"
  proof
    assume "length prompts = 12"
    then have m: "map length (windowsOf batchSize prompts) = [5, 5, 2]"
      unfolding five by (rule windowsOf_twelve)
    then have "length (windowsOf batchSize prompts) = 3"
      by (metis length_map length_Cons list.size(3) numeral_3_eq_3)
    with n m show "map length (windowsOf batchSize prompts) = [5, 5, 2]
         \<and> length (filter isSleep (snd (batchEvaluatePrompts api JSON_parse prompts))) = 2"
      by simp
  qed
  from tr five c s f n o t show ?thesis
    by blast
qed

text \<open>Twelve items: windows of 5, 5 and 2 items and two pauses.\<close>

theorem batch_windows_witness:
  "length (map sampleItem [0..<12]) = 12
   \<and> map length (windowsOf batchSize (map sampleItem [0..<12])) = [5, 5, 2]
   \<and> length (filter isSleep
        (snd (batchEvaluatePrompts (\<lambda>k r. Rejected) (\<lambda>s. None) (map sampleItem [0..<12])))) = 2"
proof -
  have l: "length (map sampleItem [0..<12]) = 12"
    by simp
  with batch_windows [of "\<lambda>k r. Rejected" "\<lambda>s. None" "map sampleItem [0..<12]"]
  show ?thesis
    by blast
qed

section \<open>Counting with a plain object\<close>

lemma firstSeen_set [simp]: "set (firstSeen xs) = set xs"
  by (induction xs) auto

lemma firstSeen_distinct [simp]: "distinct (firstSeen xs)"
  by (induction xs) auto

lemma firstSeen_snoc:
  "firstSeen (xs @ [x]) = (if x \<in> set xs then firstSeen xs else firstSeen xs @ [x])"
  by (induction xs) auto

lemma map_of_updateProperty: "map_of (updateProperty obj key v) = (map_of obj)(key \<mapsto> v)"
  by (induction obj key v rule: updateProperty.induct) auto

lemma keys_updateProperty:
  "map fst (updateProperty obj key v)
     = (if key \<in> set (map fst obj) then map fst obj else map fst obj @ [key])"
  by (induction obj key v rule: updateProperty.induct) auto

lemma proto_is_inherited: "lit ''__proto__'' \<in> set objectPrototypeKeys"
  by (simp add: objectPrototypeKeys_def)

lemma increment_plain:
  assumes "key \<notin> set objectPrototypeKeys"
  shows "increment key obj = updateProperty obj key (orZeroPlusOne (map_of obj key))"
proof -
  have "key \<noteq> lit ''__proto__''"
    using assms proto_is_inherited by blast
  moreover have "getProperty obj key = map_of obj key"
    using assms by (simp add: getProperty_def split: option.splits)
  ultimately show ?thesis
    by (simp add: increment_def setProperty_def)
qed

lemma fold_increment_snoc:
  "fold increment (ks @ [k]) obj = increment k (fold increment ks obj)"
  by simp

lemma counted_lookup:
  assumes "list_all (\<lambda>k. k \<notin> set objectPrototypeKeys) ks"
  shows "map_of (fold increment ks []) key
     = (if key \<in> set ks then Some (Count (count_list ks key)) else None)"
  using assms
proof (induction ks arbitrary: key rule: rev_induct)
  case Nil
  then show ?case by simp
next
  case (snoc k ks)
  from snoc.prems have plain: "k \<notin> set objectPrototypeKeys"
    and rest: "list_all (\<lambda>k. k \<notin> set objectPrototypeKeys) ks"
    by simp_all
  have ih: "map_of (fold increment ks []) key
       = (if key \<in> set ks then Some (Count (count_list ks key)) else None)" for key
    using snoc.IH [OF rest] .
  have "map_of (fold increment (ks @ [k]) []) key
      = ((map_of (fold increment ks []))(k \<mapsto> orZeroPlusOne (map_of (fold increment ks []) k))) key"
    by (simp only: fold_increment_snoc increment_plain [OF plain] map_of_updateProperty)
  then show ?case
    by (simp add: ih)
qed

lemma counted_keys:
  assumes "list_all (\<lambda>k. k \<notin> set objectPrototypeKeys) ks"
  shows "map fst (fold increment ks []) = firstSeen ks"
  using assms
proof (induction ks rule: rev_induct)
  case Nil
  then show ?case by simp
next
  case (snoc k ks)
  then have plain: "k \<notin> set objectPrototypeKeys"
    and ih: "map fst (fold increment ks []) = firstSeen ks"
    by simp_all
  have "map fst (fold increment (ks @ [k]) [])
      = (if k \<in> set (map fst (fold increment ks [])) then map fst (fold increment ks [])
         else map fst (fold increment ks []) @ [k])"
    by (simp only: fold_increment_snoc increment_plain [OF plain] keys_updateProperty)
  then show ?case
    by (simp add: ih firstSeen_snoc)
qed

lemma alist_by_keys:
  "distinct (map fst obj) \<Longrightarrow> obj = map (\<lambda>k. (k, the (map_of obj k))) (map fst obj)"
proof (induction obj)
  case Nil
  then show ?case by simp
next
  case (Cons e obj)
  obtain k v where e: "e = (k, v)" by (cases e)
  from Cons.prems e have d: "distinct (map fst obj)" and nk: "k \<notin> fst ` set obj"
    by simp_all
  have "map (\<lambda>k'. (k', the (map_of (e # obj) k'))) (map fst obj)
      = map (\<lambda>k'. (k', the (map_of obj k'))) (map fst obj)"
    using nk e by (intro map_cong) auto
  with Cons.IH [OF d] e show ?case
    by simp
qed

lemma counted_entries:
  assumes "list_all (\<lambda>k. k \<notin> set objectPrototypeKeys) ks"
  shows "fold increment ks [] = map (\<lambda>k. (k, Count (count_list ks k))) (firstSeen ks)"
proof -
  let ?obj = "fold increment ks []"
  have keys: "map fst ?obj = firstSeen ks"
    using counted_keys [OF assms] .
  then have "distinct (map fst ?obj)"
    by simp
  then have "?obj = map (\<lambda>k. (k, the (map_of ?obj k))) (map fst ?obj)"
    by (rule alist_by_keys)
  also have "\<dots> = map (\<lambda>k. (k, the (map_of ?obj k))) (firstSeen ks)"
    by (simp only: keys)
  also have "\<dots> = map (\<lambda>k. (k, Count (count_list ks k))) (firstSeen ks)"
    by (intro map_cong refl) (simp add: counted_lookup [OF assms])
  finally show ?thesis .
qed

section \<open>Top tags\<close>

lemma insort_key_map:
  "insort_key f (g x) (map g ys) = map g (insort_key (\<lambda>y. f (g y)) x ys)"
  by (induction ys) simp_all

lemma sort_key_map: "sort_key f (map g xs) = map g (sort_key (\<lambda>x. f (g x)) xs)"
  by (induction xs) (simp_all add: insort_key_map)

lemma Object_entries_counted:
  "Object_entries (map (\<lambda>k. (k, c k)) ks) = map (\<lambda>k. (k, c k)) (enumerationOrder ks)"
  by (simp add: Object_entries_def enumerationOrder_def filter_map comp_def sort_key_map)

lemma enumerationOrder_no_index:
  "list_all (\<lambda>k. \<not> isArrayIndex k) ks \<Longrightarrow> enumerationOrder ks = ks"
  by (simp add: enumerationOrder_def list_all_iff)

lemma sortByCountDescending_counts:
  "sortByCountDescending (map (\<lambda>k. (k, Count (n k))) ks)
     = Some (sort_key (\<lambda>e. - int (countOf e)) (map (\<lambda>k. (k, Count (n k))) ks))"
  by (simp add: sortByCountDescending_def list_all_iff isCount_def)

lemma topTags_calculateScoringStats:
  "topTags (calculateScoringStats scores) = calculateTopTags scores"
  by (simp add: calculateScoringStats_def calculateTopTags_def countTags_def
      Object_entries_def sortByCountDescending_def)

lemma calculateTopTags_plain:
  assumes "list_all (\<lambda>t. t \<notin> set objectPrototypeKeys) (concat (map suggestedTags scores))"
  shows "calculateTopTags scores
     = Some (take 20 (sort_key (\<lambda>e. - int (countOf e))
         (map (\<lambda>tag. (tag, Count (count_list (concat (map suggestedTags scores)) tag)))
           (enumerationOrder (firstSeen (concat (map suggestedTags scores)))))))"
  by (simp only: calculateTopTags_def countTags_def counted_entries [OF assms]
      Object_entries_counted sortByCountDescending_counts option.map)

text \<open>
  Tags that name an inherited property are what the hypothesis of the next theorem sets
  aside: under \<open>constructor\<close> the object ends up holding a string and not a count, and
  \<open>__proto__\<close> is never stored.
\<close>

lemma inherited_keys_not_counted:
  "countTags [taggedScore [lit ''constructor'', lit ''__proto__'', lit ''ai'', lit ''constructor'']]
     = [(lit ''constructor'', NotANumber), (lit ''ai'', Count 1)]"
  by (simp add: countTags_def taggedScore_def increment_def getProperty_def setProperty_def
      objectPrototypeKeys_def lit_eq_iff)

text \<open>
  Claim C8, as amended. For every collection of scores in which no tag names a
  property inherited from \<open>Object.prototype\<close>, \<open>calculateScoringStats\<close> computes
  \<open>topTags\<close> by flattening the tags of every item, counting the occurrences of each
  tag, sorting descending by count with ties left in the order in which the counting
  object lists its keys (the tags that are array indices first, in ascending numeric
  order, then the other tags in the order of first occurrence), and keeping at most
  20 entries. When no tag is an array index, ties are broken by first occurrence, as
  the specification words it.
\<close>

theorem topTags_by_count:
  assumes "list_all (\<lambda>t. t \<notin> set objectPrototypeKeys) (concat (map suggestedTags scores))"
  shows "topTags (calculateScoringStats scores)
     = Some (take 20 (sort_key (\<lambda>e. - int (countOf e))
         (map (\<lambda>tag. (tag, Count (count_list (concat (map suggestedTags scores)) tag)))
           (enumerationOrder (firstSeen (concat (map suggestedTags scores)))))))
   \<and> (list_all (\<lambda>t. \<not> isArrayIndex t) (concat (map suggestedTags scores)) \<longrightarrow>
        topTags (calculateScoringStats scores) = Some (topTagsBySpec scores))"
proof -
  let ?all = "concat (map suggestedTags scores)"
  have general: "topTags (calculateScoringStats scores)
     = Some (take 20 (sort_key (\<lambda>e. - int (countOf e))
         (map (\<lambda>tag. (tag, Count (count_list ?all tag))) (enumerationOrder (firstSeen ?all)))))"
    by (simp only: topTags_calculateScoringStats calculateTopTags_plain [OF assms])
  have "topTags (calculateScoringStats scores) = Some (topTagsBySpec scores)"
    if "list_all (\<lambda>t. \<not> isArrayIndex t) ?all"
  proof -
    from that have "list_all (\<lambda>t. \<not> isArrayIndex t) (firstSeen ?all)"
      by (simp add: list_all_iff)
    then have "enumerationOrder (firstSeen ?all) = firstSeen ?all"
      by (rule enumerationOrder_no_index)
    with general show ?thesis
      by (simp only: topTagsBySpec_def)
  qed
  with general show ?thesis
    by blast
qed

lemma isArrayIndex_2024: "isArrayIndex (lit ''2024'')"
  by (simp add: lit_def isDigit_def decimalValue_def)

lemma not_isArrayIndex_ai: "\<not> isArrayIndex (lit ''ai'')"
  by (simp add: lit_def isDigit_def)

lemma not_isArrayIndex_writing: "\<not> isArrayIndex (lit ''writing'')"
  by (simp add: lit_def isDigit_def)

lemma sample_tags_plain:
  "lit ''ai'' \<notin> set objectPrototypeKeys" "lit ''2024'' \<notin> set objectPrototypeKeys"
  "lit ''writing'' \<notin> set objectPrototypeKeys"
  by (simp_all add: objectPrototypeKeys_def lit_eq_iff)

lemma calculateTopTags_sample:
  "calculateTopTags [sampleScore] = Some [(lit ''2024'', Count 1), (lit ''ai'', Count 1)]"
proof -
  have tags: "concat (map suggestedTags [sampleScore]) = [lit ''ai'', lit ''2024'']"
    by (simp add: sampleScore_def)
  have plain: "list_all (\<lambda>t. t \<notin> set objectPrototypeKeys) (concat (map suggestedTags [sampleScore]))"
    unfolding tags by (simp add: sample_tags_plain)
  have order: "enumerationOrder (firstSeen [lit ''ai'', lit ''2024'']) = [lit ''2024'', lit ''ai'']"
    by (simp add: enumerationOrder_def isArrayIndex_2024 not_isArrayIndex_ai lit_eq_iff)
  show ?thesis
    unfolding calculateTopTags_plain [OF plain] tags order
    by (simp add: countOf_def lit_eq_iff)
qed

lemma topTagsBySpec_sample:
  "topTagsBySpec [sampleScore] = [(lit ''ai'', Count 1), (lit ''2024'', Count 1)]"
  by (simp add: topTagsBySpec_def sampleScore_def lit_eq_iff countOf_def)

text \<open>
  Claim C8 as stated breaks ties by first occurrence. For one score with the tags
  \<open>ai\<close> and \<open>2024\<close>, in this order and once each, the counting object lists the
  array index \<open>2024\<close> before \<open>ai\<close>, and so does \<open>topTags\<close>.
\<close>

theorem topTags_first_seen_counterexample:
  "suggestedTags sampleScore = [lit ''ai'', lit ''2024'']
   \<and> topTags (calculateScoringStats [sampleScore])
       = Some [(lit ''2024'', Count 1), (lit ''ai'', Count 1)]
   \<and> topTagsBySpec [sampleScore] = [(lit ''ai'', Count 1), (lit ''2024'', Count 1)]
   \<and> topTags (calculateScoringStats [sampleScore]) \<noteq> Some (topTagsBySpec [sampleScore])"
proof -
  have "suggestedTags sampleScore = [lit ''ai'', lit ''2024'']"
    by (simp add: sampleScore_def)
  moreover have "topTags (calculateScoringStats [sampleScore])
       = Some [(lit ''2024'', Count 1), (lit ''ai'', Count 1)]"
    by (simp only: topTags_calculateScoringStats calculateTopTags_sample)
  moreover have "[(lit ''2024'', Count 1), (lit ''ai'', Count 1)]
       \<noteq> [(lit ''ai'', Count 1), (lit ''2024'', Count (1::nat))]"
    by (simp add: lit_eq_iff)
  ultimately show ?thesis
    using topTagsBySpec_sample by simp
qed

text \<open>
  Two scores with the tags \<open>ai, 2024\<close> and \<open>writing, ai\<close>: \<open>ai\<close> comes first with
  its count of 2, then the array index \<open>2024\<close>, then \<open>writing\<close>. With the tags
  \<open>writing, ai\<close> and \<open>ai\<close>, none an array index, the result is that of the
  specification's wording.
\<close>

theorem topTags_by_count_witness:
  "topTags (calculateScoringStats
       [taggedScore [lit ''ai'', lit ''2024''], taggedScore [lit ''writing'', lit ''ai'']])
     = Some [(lit ''ai'', Count 2), (lit ''2024'', Count 1), (lit ''writing'', Count 1)]
   \<and> topTags (calculateScoringStats
       [taggedScore [lit ''writing'', lit ''ai''], taggedScore [lit ''ai'']])
     = Some (topTagsBySpec [taggedScore [lit ''writing'', lit ''ai''], taggedScore [lit ''ai'']])
   \<and> topTagsBySpec [taggedScore [lit ''writing'', lit ''ai''], taggedScore [lit ''ai'']]
     = [(lit ''ai'', Count 2), (lit ''writing'', Count 1)]"
proof -
  let ?s1 = "[taggedScore [lit ''ai'', lit ''2024''], taggedScore [lit ''writing'', lit ''ai'']]"
  let ?s2 = "[taggedScore [lit ''writing'', lit ''ai''], taggedScore [lit ''ai'']]"
  have t1: "concat (map suggestedTags ?s1) = [lit ''ai'', lit ''2024'', lit ''writing'', lit ''ai'']"
    by (simp add: taggedScore_def)
  have t2: "concat (map suggestedTags ?s2) = [lit ''writing'', lit ''ai'', lit ''ai'']"
    by (simp add: taggedScore_def)
  have p1: "list_all (\<lambda>t. t \<notin> set objectPrototypeKeys) (concat (map suggestedTags ?s1))"
    unfolding t1 by (simp add: sample_tags_plain)
  have p2: "list_all (\<lambda>t. t \<notin> set objectPrototypeKeys) (concat (map suggestedTags ?s2))"
    unfolding t2 by (simp add: sample_tags_plain)
  have n2: "list_all (\<lambda>t. \<not> isArrayIndex t) (concat (map suggestedTags ?s2))"
    unfolding t2 by (simp add: not_isArrayIndex_ai not_isArrayIndex_writing)
  have order: "enumerationOrder (firstSeen [lit ''ai'', lit ''2024'', lit ''writing'', lit ''ai''])
      = [lit ''2024'', lit ''ai'', lit ''writing'']"
    by (simp add: enumerationOrder_def isArrayIndex_2024 not_isArrayIndex_ai
        not_isArrayIndex_writing lit_eq_iff)
  from topTags_by_count [OF p1]
  have "topTags (calculateScoringStats ?s1)
     = Some (take 20 (sort_key (\<lambda>e. - int (countOf e))
         (map (\<lambda>tag. (tag, Count (count_list (concat (map suggestedTags ?s1)) tag)))
           (enumerationOrder (firstSeen (concat (map suggestedTags ?s1)))))))"
    by blast
  then have a: "topTags (calculateScoringStats ?s1)
     = Some [(lit ''ai'', Count 2), (lit ''2024'', Count 1), (lit ''writing'', Count 1)]"
    unfolding t1 order by (simp add: countOf_def lit_eq_iff)
  from topTags_by_count [OF p2] n2
  have b: "topTags (calculateScoringStats ?s2) = Some (topTagsBySpec ?s2)"
    by blast
  have c: "topTagsBySpec ?s2 = [(lit ''ai'', Count 2), (lit ''writing'', Count 1)]"
    unfolding topTagsBySpec_def t2 by (simp add: countOf_def lit_eq_iff)
  from a b c show ?thesis
    by blast
qed

section \<open>Histograms\<close>

lemma natToString_digit: "n < 10 \<Longrightarrow> natToString n = [of_nat (48 + n)]"
  by (subst natToString.simps) simp

lemma natToString_10: "natToString 10 = [0x31, 0x30]"
  by (subst natToString.simps) (simp add: natToString_digit)

lemma fiveBuckets_distinct: "distinct fiveBuckets"
  by (simp add: fiveBuckets_def lit_eq_iff)

lemma fiveBuckets_length: "length fiveBuckets = 5"
  by (simp add: fiveBuckets_def)

lemma fiveBuckets_plain: "list_all (\<lambda>k. k \<notin> set objectPrototypeKeys) fiveBuckets"
  by (simp add: fiveBuckets_def objectPrototypeKeys_def lit_eq_iff)

lemma bucketLabel_of_bucket:
  assumes "k < 5"
  shows "intToString (int k * 2 + 1) @ lit ''-'' @ intToString (int k * 2 + 2) = fiveBuckets ! k"
proof -
  from assms have "k = 0 \<or> k = 1 \<or> k = 2 \<or> k = 3 \<or> k = 4"
    by auto
  then show ?thesis
    by (elim disjE)
       (simp_all add: intToString_def natToString_digit natToString_10 fiveBuckets_def lit_def)
qed

lemma isScoreValue_int:
  assumes "isScoreValue v"
  obtains i :: int where "v = of_int i" and "1 \<le> i" and "i \<le> 10"
proof -
  from assms have v: "v = of_int \<lfloor>v\<rfloor>" and lo: "1 \<le> v" and hi: "v \<le> 10"
    by (simp_all add: isScoreValue_def)
  from lo have "1 \<le> \<lfloor>v\<rfloor>"
    by (simp add: le_floor_iff)
  moreover from hi have "\<lfloor>v\<rfloor> \<le> 10"
    by (simp add: floor_le_iff)
  ultimately show ?thesis
    using v that by blast
qed

lemma floor_half: "\<lfloor>(of_int i - 1) / (2 :: rat)\<rfloor> = (i - 1) div 2"
proof -
  have "(of_int i - 1) / (2 :: rat) = of_int (i - 1) / of_int 2"
    by simp
  then show ?thesis
    by (simp only: floor_divide_of_int_eq)
qed

lemma bucketLabel_score:
  assumes "isScoreValue v"
  shows "nat \<lfloor>(v - 1) / 2\<rfloor> < 5 \<and> bucketLabel v = fiveBuckets ! nat \<lfloor>(v - 1) / 2\<rfloor>"
proof -
  from assms obtain i :: int where i: "v = of_int i" "1 \<le> i" "i \<le> 10"
    by (rule isScoreValue_int)
  define k where "k = nat ((i - 1) div 2)"
  have fl: "\<lfloor>(v - 1) / 2\<rfloor> = int k"
    using i by (simp add: floor_half k_def)
  have k: "k < 5"
    using i by (simp add: k_def)
  have "bucketLabel v = intToString (int k * 2 + 1) @ lit ''-'' @ intToString (int k * 2 + 2)"
    by (simp add: bucketLabel_def fl)
  with k fl show ?thesis
    by (simp add: bucketLabel_of_bucket)
qed

lemma inBucket_score:
  assumes "isScoreValue v"
  shows "inBucket k v \<longleftrightarrow> k = nat \<lfloor>(v - 1) / 2\<rfloor>"
proof -
  from assms obtain i :: int where i: "v = of_int i" "1 \<le> i" "i \<le> 10"
    by (rule isScoreValue_int)
  have "inBucket k v \<longleftrightarrow>
      (of_int (int (2 * k + 1)) :: rat) \<le> of_int i \<and> (of_int i :: rat) \<le> of_int (int (2 * k + 2))"
    unfolding inBucket_def i(1) by (simp only: of_int_of_nat_eq)
  also have "\<dots> \<longleftrightarrow> int (2 * k + 1) \<le> i \<and> i \<le> int (2 * k + 2)"
    by (simp only: of_int_le_iff)
  also have "\<dots> \<longleftrightarrow> k = nat ((i - 1) div 2)"
    using i by auto
  finally show ?thesis
    using i by (simp add: floor_half)
qed

lemma bucketLabel_eq_iff:
  assumes "isScoreValue v" and "k < 5"
  shows "bucketLabel v = fiveBuckets ! k \<longleftrightarrow> inBucket k v"
proof -
  from bucketLabel_score [OF assms(1)]
  have k': "nat \<lfloor>(v - 1) / 2\<rfloor> < 5" and l: "bucketLabel v = fiveBuckets ! nat \<lfloor>(v - 1) / 2\<rfloor>"
    by simp_all
  have "fiveBuckets ! nat \<lfloor>(v - 1) / 2\<rfloor> = fiveBuckets ! k \<longleftrightarrow> nat \<lfloor>(v - 1) / 2\<rfloor> = k"
    using k' assms(2) by (simp add: nth_eq_iff_index_eq fiveBuckets_distinct fiveBuckets_length)
  then show ?thesis
    using l inBucket_score [OF assms(1), of k] by auto
qed

lemma count_list_map: "count_list (map f xs) y = length (filter (\<lambda>x. f x = y) xs)"
  by (induction xs) simp_all

lemma bucketCount_labels:
  assumes "list_all isScoreValue vs" and "k < 5"
  shows "count_list (map bucketLabel vs) (fiveBuckets ! k) = bucketCount k vs"
proof -
  have "filter (\<lambda>v. bucketLabel v = fiveBuckets ! k) vs = filter (inBucket k) vs"
    using assms by (intro filter_cong refl) (simp add: list_all_iff bucketLabel_eq_iff)
  then show ?thesis
    by (simp add: count_list_map bucketCount_def)
qed

lemma labels_in_fiveBuckets:
  assumes "list_all isScoreValue vs"
  shows "set (map bucketLabel vs) \<subseteq> set fiveBuckets"
proof
  fix l assume "l \<in> set (map bucketLabel vs)"
  then obtain v where v: "v \<in> set vs" "l = bucketLabel v"
    by auto
  with assms have "isScoreValue v"
    by (simp add: list_all_iff)
  from bucketLabel_score [OF this] v(2) show "l \<in> set fiveBuckets"
    by (simp add: fiveBuckets_length)
qed

lemma labels_plain:
  assumes "list_all isScoreValue vs"
  shows "list_all (\<lambda>k. k \<notin> set objectPrototypeKeys) (map bucketLabel vs)"
  using labels_in_fiveBuckets [OF assms] fiveBuckets_plain
  by (auto simp: list_all_iff)

lemma histogram_of_values:
  assumes "list_all isScoreValue vs"
  shows "isHistogramOf (fold increment (map bucketLabel vs) []) vs"
proof -
  let ?ls = "map bucketLabel vs"
  let ?h = "fold increment ?ls []"
  note plain = labels_plain [OF assms]
  have keys: "map fst ?h = firstSeen ?ls"
    using counted_keys [OF plain] .
  have d: "distinct (map fst ?h)"
    by (simp add: keys)
  have m: "list_all (\<lambda>key. key \<in> set fiveBuckets) (map fst ?h)"
    using labels_in_fiveBuckets [OF assms] by (auto simp: keys list_all_iff)
  have "holdsBucket ?h vs k" if "k < 5" for k
  proof -
    have c: "count_list ?ls (fiveBuckets ! k) = bucketCount k vs"
      using bucketCount_labels [OF assms that] .
    have "fiveBuckets ! k \<in> set ?ls \<longleftrightarrow> bucketCount k vs \<noteq> 0"
      using c count_list_0_iff [of ?ls "fiveBuckets ! k"] by auto
    then show ?thesis
      unfolding holdsBucket_def counted_lookup [OF plain] c by auto
  qed
  then have "list_all (holdsBucket ?h vs) [0..<5]"
    by (simp add: list_all_iff)
  with d m show ?thesis
    by (simp add: isHistogramOf_def)
qed

lemma fold_addToDistributions:
  "clarity_distribution (fold addToDistributions scores d)
     = fold increment (map bucketLabel (map clarity scores)) (clarity_distribution d)"
  "structure_distribution (fold addToDistributions scores d)
     = fold increment (map bucketLabel (map structure scores)) (structure_distribution d)"
  "usefulness_distribution (fold addToDistributions scores d)
     = fold increment (map bucketLabel (map usefulness scores)) (usefulness_distribution d)"
  "overall_distribution (fold addToDistributions scores d)
     = fold increment (map bucketLabel (map overall scores)) (overall_distribution d)"
  by (induction scores arbitrary: d; simp add: addToDistributions_def)+

lemma distributions_calculateScoringStats:
  "clarity_distribution (distributions (calculateScoringStats scores))
     = fold increment (map bucketLabel (map clarity scores)) []"
  "structure_distribution (distributions (calculateScoringStats scores))
     = fold increment (map bucketLabel (map structure scores)) []"
  "usefulness_distribution (distributions (calculateScoringStats scores))
     = fold increment (map bucketLabel (map usefulness scores)) []"
  "overall_distribution (distributions (calculateScoringStats scores))
     = fold increment (map bucketLabel (map overall scores)) []"
  by (simp_all add: calculateScoringStats_def fold_addToDistributions emptyDistributions_def)

lemma one_bucket:
  assumes "isScoreValue v"
  shows "sum_list (map (\<lambda>k. if inBucket k v then 1 else 0) [0..<5]) = (1 :: nat)"
proof -
  define j where "j = nat \<lfloor>(v - 1) / 2\<rfloor>"
  have eq: "inBucket k v \<longleftrightarrow> k = j" for k
    using inBucket_score [OF assms] by (simp add: j_def)
  from bucketLabel_score [OF assms] have "j < 5"
    by (simp add: j_def)
  then have "j = 0 \<or> j = 1 \<or> j = 2 \<or> j = 3 \<or> j = 4"
    by auto
  moreover have "[0..<5] = [0, 1, 2, 3, 4]"
    by (simp add: upt_rec)
  ultimately show ?thesis
    unfolding eq by (elim disjE) simp_all
qed

lemma bucketCount_total:
  assumes "list_all isScoreValue vs"
  shows "sum_list (map (\<lambda>k. bucketCount k vs) [0..<5]) = length vs"
  using assms
proof (induction vs)
  case Nil
  then show ?case by (simp add: bucketCount_def)
next
  case (Cons v vs)
  then have v: "isScoreValue v" and vs: "list_all isScoreValue vs"
    by simp_all
  have "bucketCount k (v # vs) = (if inBucket k v then 1 else 0) + bucketCount k vs" for k
    by (simp add: bucketCount_def)
  then have "sum_list (map (\<lambda>k. bucketCount k (v # vs)) [0..<5])
      = sum_list (map (\<lambda>k. if inBucket k v then 1 else 0) [0..<5])
        + sum_list (map (\<lambda>k. bucketCount k vs) [0..<5])"
    by (simp add: sum_list_addf)
  then show ?case
    by (simp add: one_bucket [OF v] Cons.IH [OF vs])
qed

lemma calculateScoringStats_empty:
  "calculateScoringStats [] =
     \<lparr>averages = \<lparr>average_clarity = 0, average_structure = 0,
                  average_usefulness = 0, average_overall = 0\<rparr>,
      distributions = \<lparr>clarity_distribution = [], structure_distribution = [],
                       usefulness_distribution = [], overall_distribution = []\<rparr>,
      topTags = Some [],
      categoryDistribution = []\<rparr>"
  by (simp add: calculateScoringStats_def emptyDistributions_def)

text \<open>
  Claim C7. For every collection of scores whose values are integers from 1 to 10,
  each histogram of \<open>calculateScoringStats\<close> has as keys distinct labels among
  \<open>1-2\<close>, \<open>3-4\<close>, \<open>5-6\<close>, \<open>7-8\<close>, \<open>9-10\<close>, and holds under the label of bucket
  \<open>k\<close> the number of values from \<open>2k + 1\<close> to \<open>2k + 2\<close>. A value \<open>v\<close> is counted
  under the label of the bucket \<open>k = floor ((v - 1) / 2)\<close> and lies in that bucket and
  in no other, so that the five counts add up to the number of scores. For the empty
  collection the averages are 0 and the histograms, the tag list and the category
  distribution are empty.
\<close>

theorem histogram_buckets:
  assumes "list_all hasScoreValues scores"
  shows "isHistogramOf (clarity_distribution (distributions (calculateScoringStats scores)))
        (map clarity scores)
    \<and> isHistogramOf (structure_distribution (distributions (calculateScoringStats scores)))
        (map structure scores)
    \<and> isHistogramOf (usefulness_distribution (distributions (calculateScoringStats scores)))
        (map usefulness scores)
    \<and> isHistogramOf (overall_distribution (distributions (calculateScoringStats scores)))
        (map overall scores)
    \<and> sum_list (map (\<lambda>k. bucketCount k (map clarity scores)) [0..<5]) = length scores
    \<and> sum_list (map (\<lambda>k. bucketCount k (map structure scores)) [0..<5]) = length scores
    \<and> sum_list (map (\<lambda>k. bucketCount k (map usefulness scores)) [0..<5]) = length scores
    \<and> sum_list (map (\<lambda>k. bucketCount k (map overall scores)) [0..<5]) = length scores
    \<and> fiveBuckets = [lit ''1-2'', lit ''3-4'', lit ''5-6'', lit ''7-8'', lit ''9-10'']
    \<and> distinct fiveBuckets
    \<and> (\<forall>v. isScoreValue v \<longrightarrow>
          nat \<lfloor>(v - 1) / 2\<rfloor> < 5
          \<and> bucketLabel v = fiveBuckets ! nat \<lfloor>(v - 1) / 2\<rfloor>
          \<and> (\<forall>k. inBucket k v \<longleftrightarrow> k = nat \<lfloor>(v - 1) / 2\<rfloor>))
    \<and> calculateScoringStats [] =
         \<lparr>averages = \<lparr>average_clarity = 0, average_structure = 0,
                      average_usefulness = 0, average_overall = 0\<rparr>,
          distributions = \<lparr>clarity_distribution = [], structure_distribution = [],
                           usefulness_distribution = [], overall_distribution = []\<rparr>,
          topTags = Some [],
          categoryDistribution = []\<rparr>"
proof -
  from assms have c: "list_all isScoreValue (map clarity scores)"
    and s: "list_all isScoreValue (map structure scores)"
    and u: "list_all isScoreValue (map usefulness scores)"
    and ov: "list_all isScoreValue (map overall scores)"
    by (simp_all add: list_all_iff hasScoreValues_def)
  have h1: "isHistogramOf (clarity_distribution (distributions (calculateScoringStats scores)))
        (map clarity scores)"
    unfolding distributions_calculateScoringStats using c by (rule histogram_of_values)
  have h2: "isHistogramOf (structure_distribution (distributions (calculateScoringStats scores)))
        (map structure scores)"
    unfolding distributions_calculateScoringStats using s by (rule histogram_of_values)
  have h3: "isHistogramOf (usefulness_distribution (distributions (calculateScoringStats scores)))
        (map usefulness scores)"
    unfolding distributions_calculateScoringStats using u by (rule histogram_of_values)
  have h4: "isHistogramOf (overall_distribution (distributions (calculateScoringStats scores)))
        (map overall scores)"
    unfolding distributions_calculateScoringStats using ov by (rule histogram_of_values)
  have t1: "sum_list (map (\<lambda>k. bucketCount k (map clarity scores)) [0..<5]) = length scores"
    using bucketCount_total [OF c] by simp
  have t2: "sum_list (map (\<lambda>k. bucketCount k (map structure scores)) [0..<5]) = length scores"
    using bucketCount_total [OF s] by simp
  have t3: "sum_list (map (\<lambda>k. bucketCount k (map usefulness scores)) [0..<5]) = length scores"
    using bucketCount_total [OF u] by simp
  have t4: "sum_list (map (\<lambda>k. bucketCount k (map overall scores)) [0..<5]) = length scores"
    using bucketCount_total [OF ov] by simp
  have p: "\<forall>v. isScoreValue v \<longrightarrow>
          nat \<lfloor>(v - 1) / 2\<rfloor> < 5
          \<and> bucketLabel v = fiveBuckets ! nat \<lfloor>(v - 1) / 2\<rfloor>
          \<and> (\<forall>k. inBucket k v \<longleftrightarrow> k = nat \<lfloor>(v - 1) / 2\<rfloor>)"
    using bucketLabel_score inBucket_score by blast
  from h1 h2 h3 h4 t1 t2 t3 t4 p show ?thesis
    using fiveBuckets_def fiveBuckets_distinct calculateScoringStats_empty by blast
qed

lemma uniformScore_values:
  "clarity (uniformScore v) = v" "structure (uniformScore v) = v"
  "usefulness (uniformScore v) = v" "overall (uniformScore v) = v"
  by (simp_all add: uniformScore_def)

text \<open>Three scores with the values 2, 7 and 7: one value under \<open>1-2\<close>, two under
  \<open>7-8\<close>, none under \<open>3-4\<close>.\<close>

theorem histogram_buckets_witness:
  "list_all hasScoreValues [uniformScore 2, uniformScore 7, uniformScore 7]
   \<and> map_of (overall_distribution (distributions
        (calculateScoringStats [uniformScore 2, uniformScore 7, uniformScore 7]))) (lit ''1-2'')
       = Some (Count 1)
   \<and> map_of (overall_distribution (distributions
        (calculateScoringStats [uniformScore 2, uniformScore 7, uniformScore 7]))) (lit ''7-8'')
       = Some (Count 2)
   \<and> map_of (overall_distribution (distributions
        (calculateScoringStats [uniformScore 2, uniformScore 7, uniformScore 7]))) (lit ''3-4'')
       = None"
proof -
  let ?three = "[uniformScore 2, uniformScore 7, uniformScore 7]"
  let ?h = "overall_distribution (distributions (calculateScoringStats ?three))"
  have valid: "list_all hasScoreValues ?three"
    by (simp add: hasScoreValues_def uniformScore_values isScoreValue_def)
  have vs: "map overall ?three = [2, 7, 7]"
    by (simp add: uniformScore_values)
  from histogram_buckets [OF valid] have "isHistogramOf ?h (map overall ?three)"
    by blast
  then have "isHistogramOf ?h [2, 7, 7]"
    unfolding vs .
  then have "list_all (holdsBucket ?h [2, 7, 7]) [0..<5]"
    by (simp add: isHistogramOf_def)
  moreover have "[0..<5] = [0, 1, 2, 3, 4]"
    by (simp add: upt_rec)
  ultimately have b: "holdsBucket ?h [2, 7, 7] 0" "holdsBucket ?h [2, 7, 7] 1"
    "holdsBucket ?h [2, 7, 7] 3"
    by simp_all
  have n: "bucketCount 0 [2, 7, 7] = 1" "bucketCount 1 [2, 7, 7] = 0" "bucketCount 3 [2, 7, 7] = 2"
    by (simp_all add: bucketCount_def inBucket_def)
  have l: "fiveBuckets ! 0 = lit ''1-2''" "fiveBuckets ! 1 = lit ''3-4''" "fiveBuckets ! 3 = lit ''7-8''"
    by (simp_all add: fiveBuckets_def)
  from b show ?thesis
    unfolding holdsBucket_def n l using valid by simp
qed

end
